theory Spec2Isabelle
  imports Main "HOL-Library.Multiset" "HOL-Library.List_Lexorder" "HOL-Library.Char_ord"
    "HOL-Library.AList"
begin

section \<open>The word game (src/src/components/WordleGame.tsx)\<close>

text \<open>
  The game document of the collection \<^verbatim>\<open>wordleGames\<close>, as the interface
  \<^verbatim>\<open>GameState\<close> declares it (lines 12-22). Identities and words are strings.
\<close>

datatype gameStatus = Waiting | Active | Completed

record GameState =
  word :: string
  currentPlayer :: string
  player1 :: string
  player2 :: string
  player1Guesses :: "string list"
  player2Guesses :: "string list"
  status :: gameStatus
  winner :: "string option"
  createdAt :: nat

text \<open>The word list of lines 24-77, in the order of the source (repetitions included).\<close>

definition WORDS :: "string list" where
  "WORDS = [
    ''FLUSH'', ''WIPES'', ''BIDET'', ''STOOL'', ''BOWEL'', ''POTTY'', ''SQUAT'', ''PLUMB'',
    ''WATER'', ''PAPER'', ''CLEAN'', ''SMELL'', ''SPRAY'', ''DRAIN'', ''FLOAT'', ''ROYAL'',
    ''WASTE'', ''SEWER'', ''PIPES'', ''VALVE'', ''BASIN'', ''FECAL'', ''URINE'', ''POOPS'',
    ''POOHS'', ''CRAPS'', ''DUMPS'', ''TURDS'', ''DOOKS'', ''LOAFS'', ''SINKS'', ''TANKS'',
    ''SEATS'', ''LATCH'', ''LEVER'', ''CHAIN'', ''KNOBS'', ''HINGE'', ''LOCKS'', ''DOORS'',
    ''STALL'', ''WALLS'', ''TILES'', ''GROUT'', ''CAULK'', ''DRIPS'', ''LEAKS'', ''CLOGS'',
    ''BACKS'', ''FLOWS'', ''SWIRL'', ''WHIRL'', ''SPINS'', ''DROPS'', ''FALLS'', ''ROLLS'',
    ''SHEET'', ''CLOTH'', ''BRUSH'', ''GOING'', ''DOING'', ''VISIT'', ''BREAK'', ''RELAX'',
    ''EMPTY'', ''PURGE'', ''EXPEL'', ''GRUNT'', ''PINCH'', ''PRESS'', ''SHITS'', ''FORCE'',
    ''QUIET'', ''PEACE'', ''ALONE'', ''SPACE'', ''READS'', ''PHONE'', ''GAMES'', ''TEXTS'',
    ''WAITS'', ''HURRY'', ''QUICK'', ''RUSHS'', ''TARDY'', ''LATER'', ''STINK'', ''ODORS'',
    ''SCENT'', ''WHIFF'', ''FRESH'', ''MISTS'', ''VAPOR'', ''STEAM'', ''SCRUB'', ''MOPUP'',
    ''RINSE'', ''SHINE'', ''GLEAM'', ''GLOSS'', ''SHEEN'', ''SLICK'', ''SLIME'', ''GRIME'',
    ''FILTH'', ''DIRTY'', ''MUCKY'', ''GRIMY'', ''STAIN'', ''MARKS'', ''SPOTS'', ''RINGS'',
    ''LINES'', ''MOLDS'', ''FUNGI'', ''GERMS'', ''VIRUS'', ''BACTS'', ''LYSOL'', ''SOAPY'',
    ''SUDSY'', ''SWIPE'', ''SWEEP'', ''FOAMS'', ''BUBBL'', ''FROTH'', ''SWISH'', ''BOWLS'',
    ''BASES'', ''BENDS'', ''TRAPS'', ''FLAPS'', ''PEDAL'', ''TOUCH'', ''SENSE'', ''ROUND'',
    ''JOHNS'', ''HEADS'', ''ROOMS'', ''CABIN'', ''VENTS'', ''PLUSH'', ''THICK'', ''ROUGH'',
    ''FOLDS'', ''MOIST'', ''WETTY'', ''DRYER'', ''TOWEL'', ''SOAPS'', ''HANDS'', ''PALMS'',
    ''NAILS'', ''FLOWS'', ''DUCTS'', ''MAINS'', ''LINES'', ''ROUTE'', ''PUMPS'', ''POWER'',
    ''BOOST'', ''GATES'', ''STOPS'', ''BLOCK'', ''CLOGS'', ''DRIPS'', ''DROPS'', ''SPILL'',
    ''FLOOD'', ''POOLS'', ''SPINS'', ''TWIST'', ''SOUND'', ''NOISE''
  ]"

subsection \<open>Submitting a guess: \<^verbatim>\<open>handleSubmitGuess\<close>, lines 177-227\<close>

text \<open>
  The handler reads the local snapshot \<^verbatim>\<open>gameState\<close>, builds the object
  \<^verbatim>\<open>updates\<close> and passes it to \<^verbatim>\<open>updateDoc\<close>, which overwrites the named
  fields of the stored document and leaves the others. The object always holds the
  caller's guess list and \<^verbatim>\<open>currentPlayer\<close>; \<^verbatim>\<open>status\<close> and \<^verbatim>\<open>winner\<close> are
  present only for a correct guess.
\<close>

datatype guessesField = Player1GuessesField | Player2GuessesField

record guessUpdates =
  playerGuessesField :: guessesField
  updatedGuesses :: "string list"
  updCurrentPlayer :: string
  updStatusWinner :: "(gameStatus \<times> string) option"

definition updateDoc_game :: "GameState \<Rightarrow> guessUpdates \<Rightarrow> GameState" where
  "updateDoc_game d u =
     (let d1 = (case playerGuessesField u of
                  Player1GuessesField \<Rightarrow> d\<lparr>player1Guesses := updatedGuesses u\<rparr>
                | Player2GuessesField \<Rightarrow> d\<lparr>player2Guesses := updatedGuesses u\<rparr>);
          d2 = d1\<lparr>currentPlayer := updCurrentPlayer u\<rparr>
      in case updStatusWinner u of
           None \<Rightarrow> d2
         | Some (s, w) \<Rightarrow> d2\<lparr>status := s, winner := Some w\<rparr>)"

text \<open>
  Lines 195-215: the object \<^verbatim>\<open>updates\<close> for a caller \<open>me\<close> whose guess passed
  the two checks.
\<close>

definition guessUpdatesOf :: "GameState \<Rightarrow> string \<Rightarrow> string \<Rightarrow> guessUpdates" where
  "guessUpdatesOf gs me currentGuess =
     (let isPlayer1 = (me = player1 gs);
          opponentId = (if isPlayer1 then player2 gs else player1 gs);
          isCorrect = (currentGuess = word gs)
      in \<lparr> playerGuessesField =
             (if isPlayer1 then Player1GuessesField else Player2GuessesField),
           updatedGuesses =
             (if isPlayer1 then player1Guesses gs else player2Guesses gs) @ [currentGuess],
           updCurrentPlayer = opponentId,
           updStatusWinner = (if isCorrect then Some (Completed, me) else None) \<rparr>)"

text \<open>
  What one call of the handler does. The checks and the object \<^verbatim>\<open>updates\<close> are
  computed from the client's snapshot \<^verbatim>\<open>gameState\<close> (React state, fed by the
  listener of lines 105-128); \<^verbatim>\<open>updateDoc\<close> then patches the document that is
  in the store at that moment, \<open>stored\<close>, which need not be the snapshot (another
  tab or client may have written since). \<open>NoCall\<close> is the silent return of line
  178, \<open>Message\<close> a return that only sets the message (a failed check, or the
  \<^verbatim>\<open>catch\<close> branch when the write fails: \<open>writeOk\<close> says whether
  \<^verbatim>\<open>updateDoc\<close> succeeds), \<open>Updated\<close> the stored document after the write,
  with the message shown.
\<close>

datatype submitOutcome = NoCall | Message string | Updated GameState string

definition handleSubmitGuess ::
  "GameState option \<Rightarrow> GameState \<Rightarrow> string option \<Rightarrow> string \<Rightarrow> bool \<Rightarrow> submitOutcome" where
  "handleSubmitGuess gameState stored currentUser currentGuess writeOk =
     (case (gameState, currentUser) of
        (Some gs, Some me) \<Rightarrow>
          if currentPlayer gs \<noteq> me then Message ''It's not your turn!''
          else if length currentGuess \<noteq> 5 then Message ''Your guess must be 5 letters!''
          else if \<not> writeOk then Message ''Error submitting your guess. Please try again.''
          else Updated (updateDoc_game stored (guessUpdatesOf gs me currentGuess))
                 (if currentGuess = word gs then ''You won!'' else ''Guess submitted!'')
      | _ \<Rightarrow> NoCall)"

text \<open>
  The only caller of the handler is the Enter button of \<^verbatim>\<open>renderKeyboard\<close>
  (line 269). The keyboard is rendered only under the condition of line 457, and the
  button is disabled under the condition of line 271; both read the snapshot.
\<close>

definition keyboardRendered :: "GameState \<Rightarrow> string option \<Rightarrow> bool" where
  "keyboardRendered gs currentUser =
     (status gs \<noteq> Completed \<and> Some (currentPlayer gs) = currentUser)"

definition enterDisabled :: "GameState \<Rightarrow> string option \<Rightarrow> string \<Rightarrow> bool" where
  "enterDisabled gs currentUser currentGuess =
     (length currentGuess \<noteq> 5 \<or> Some (currentPlayer gs) \<noteq> currentUser)"

definition clickEnter ::
  "GameState \<Rightarrow> GameState \<Rightarrow> string option \<Rightarrow> string \<Rightarrow> bool \<Rightarrow> submitOutcome" where
  "clickEnter gs stored currentUser currentGuess writeOk =
     (if keyboardRendered gs currentUser \<and> \<not> enterDisabled gs currentUser currentGuess
      then handleSubmitGuess (Some gs) stored currentUser currentGuess writeOk
      else NoCall)"



subsection \<open>Per-letter feedback: \<^verbatim>\<open>renderGuessResult\<close>, lines 229-254\<close>

text \<open>
  The three background colours of a tile: \<open>Exact\<close> is \<^verbatim>\<open>bg-green-500\<close>,
  \<open>Present\<close> is \<^verbatim>\<open>bg-yellow-500\<close>, \<open>Absent\<close> is the default grey.
  \<^verbatim>\<open>gameState.word[i]\<close> beyond the end of the word is \<^verbatim>\<open>undefined\<close>, equal
  to no letter.
\<close>

datatype letterClass = Exact | Present | Absent

definition bgColor :: "string \<Rightarrow> nat \<Rightarrow> char \<Rightarrow> letterClass" where
  "bgColor w i letter =
     (if i < length w \<and> w ! i = letter then Exact
      else if letter \<in> set w then Present
      else Absent)"

definition renderGuessResult :: "GameState option \<Rightarrow> string \<Rightarrow> letterClass list option" where
  "renderGuessResult gameState guess =
     (case gameState of
        None \<Rightarrow> None
      | Some gs \<Rightarrow> Some (map (\<lambda>(i, letter). bgColor (word gs) i letter) (enumerate 0 guess)))"

subsection \<open>Lazy creation: \<^verbatim>\<open>initializeGame\<close>, lines 130-165\<close>

text \<open>
  The effect awaits \<^verbatim>\<open>getDoc\<close>, and only then, if the document was absent,
  calls \<^verbatim>\<open>setDoc\<close>, which writes the whole document. The two calls are separate
  steps, so that the steps of two clients can interleave. \<open>r\<close> is the index
  \<^verbatim>\<open>Math.floor(Math.random() * WORDS.length)\<close>, \<open>now\<close> the clock.
\<close>

type_synonym wordleGames = "string \<rightharpoonup> GameState"

definition newGameState :: "string \<Rightarrow> string \<Rightarrow> nat \<Rightarrow> nat \<Rightarrow> GameState" where
  "newGameState me opponentId r now =
     \<lparr> word = WORDS ! r, currentPlayer = me, player1 = me, player2 = opponentId,
       player1Guesses = [], player2Guesses = [], status = Active, winner = None,
       createdAt = now \<rparr>"

record initClient =
  clientUid :: string
  clientOpponent :: string
  clientRandom :: nat
  clientNow :: nat

text \<open>
  The effect runs in a mounted \<^verbatim>\<open>WordleGame\<close>, and the component is mounted when
  the provider's \<^verbatim>\<open>activeGameId\<close> is set. That happens in two places. In the tab
  that accepts the invite, \<^verbatim>\<open>handleAccept\<close> (src/unnamed/part_003, lines 51-65)
  makes the game id and \<^verbatim>\<open>handleAcceptInvite\<close> (src/unnamed/part_011, lines
  144-148) sets it at once: that tab is \<open>ClientA\<close>, mounted from the start. In
  every other client the poller sets it, and only when the game document exists with a
  status other than completed (src/unnamed/part_011, lines 66-70 and 92-96, and the same
  lines in src/unnamed/part_001 and src/src/pages/Home.tsx): that is \<open>ClientB\<close>,
  mounted by a \<open>Poll\<close> that finds the document. No code deletes a game document.
\<close>

datatype clientId = ClientA | ClientB

datatype initEvent = Poll clientId | GetDoc clientId | SetDoc clientId

record initRace =
  games :: wordleGames
  mounted :: "clientId \<Rightarrow> bool"
  sawExists :: "clientId \<Rightarrow> bool option"

definition stillActive :: "wordleGames \<Rightarrow> string \<Rightarrow> bool" where
  "stillActive g gid = (case g gid of None \<Rightarrow> False | Some doc \<Rightarrow> status doc \<noteq> Completed)"

definition createdBy :: "(clientId \<Rightarrow> initClient) \<Rightarrow> clientId \<Rightarrow> GameState" where
  "createdBy cl c =
     newGameState (clientUid (cl c)) (clientOpponent (cl c)) (clientRandom (cl c))
       (clientNow (cl c))"

definition initStep ::
  "string \<Rightarrow> (clientId \<Rightarrow> initClient) \<Rightarrow> initRace \<Rightarrow> initEvent \<Rightarrow> initRace" where
  "initStep gid cl s e =
     (case e of
        Poll c \<Rightarrow> s\<lparr>mounted := (mounted s)(c := mounted s c \<or> stillActive (games s) gid)\<rparr>
      | GetDoc c \<Rightarrow>
          if mounted s c
          then s\<lparr>sawExists := (sawExists s)(c := Some (games s gid \<noteq> None))\<rparr>
          else s
      | SetDoc c \<Rightarrow>
          (case sawExists s c of
             Some False \<Rightarrow>
               s\<lparr>games := (games s)(gid \<mapsto> createdBy cl c),
                 sawExists := (sawExists s)(c := None)\<rparr>
           | _ \<Rightarrow> s))"

definition initRun ::
  "string \<Rightarrow> (clientId \<Rightarrow> initClient) \<Rightarrow> wordleGames \<Rightarrow> initEvent list \<Rightarrow> initRace" where
  "initRun gid cl g es =
     foldl (initStep gid cl)
       \<lparr>games = g, mounted = (\<lambda>c. c = ClientA), sawExists = (\<lambda>_. None)\<rparr> es"

text \<open>The accepting tab alone: the read, then the write.\<close>

definition initializeGame ::
  "string \<Rightarrow> initClient \<Rightarrow> wordleGames \<Rightarrow> wordleGames" where
  "initializeGame gid c g =
     games (initRun gid (\<lambda>_. c) g [GetDoc ClientA, SetDoc ClientA])"

text \<open>
  The game that ann created with the first word of the list and bob as opponent, and the
  same game after ann's first guess was the word.
\<close>

definition startGame :: GameState where
  "startGame = newGameState ''ann'' ''bob'' 0 0"

definition overGame :: GameState where
  "overGame = \<lparr> word = ''FLUSH'', currentPlayer = ''bob'', player1 = ''ann'', player2 = ''bob'',
       player1Guesses = [''FLUSH''], player2Guesses = [], status = Completed,
       winner = Some ''ann'', createdAt = 0 \<rparr>"


section \<open>Accepting a friend request\<close>

text \<open>
  The Firestore collections the operation touches. A profile document of
  \<^verbatim>\<open>users\<close> is modelled by its \<^verbatim>\<open>friends\<close> field, which may be missing
  (the code reads it as \<^verbatim>\<open>data.friends || []\<close>); a document of
  \<^verbatim>\<open>friendRequests\<close> by its status.
\<close>

datatype requestStatus = ReqPending | ReqAccepted | ReqRejected | ReqCancelled

record UserDoc =
  friends :: "string list option"

record firestore =
  users :: "string \<rightharpoonup> UserDoc"
  friendRequests :: "string \<rightharpoonup> requestStatus"

record FriendRequest =
  requestId :: string
  senderUid :: string
  senderDisplayName :: string

definition friendsOrEmpty :: "UserDoc \<Rightarrow> string list" where
  "friendsOrEmpty d = (case friends d of None \<Rightarrow> [] | Some fs \<Rightarrow> fs)"

text \<open>\<^verbatim>\<open>arrayUnion(v)\<close>: the element is added unless it is already in the array.\<close>

definition arrayUnion :: "string list \<Rightarrow> string \<Rightarrow> string list" where
  "arrayUnion xs v = (if v \<in> set xs then xs else xs @ [v])"

text \<open>
  \<^verbatim>\<open>updateDoc(ref, {friends: arrayUnion(v)})\<close> on the profile \<open>u\<close>: it fails
  (\<open>None\<close>) when the document does not exist.
\<close>

definition updateDoc_friends ::
  "(string \<rightharpoonup> UserDoc) \<Rightarrow> string \<Rightarrow> string \<Rightarrow> (string \<rightharpoonup> UserDoc) option" where
  "updateDoc_friends us u v =
     (case us u of
        None \<Rightarrow> None
      | Some d \<Rightarrow> Some (us(u \<mapsto> d\<lparr>friends := Some (arrayUnion (friendsOrEmpty d) v)\<rparr>)))"

definition updateDoc_status ::
  "(string \<rightharpoonup> requestStatus) \<Rightarrow> string \<Rightarrow> requestStatus
     \<Rightarrow> (string \<rightharpoonup> requestStatus) option" where
  "updateDoc_status rs r st = (case rs r of None \<Rightarrow> None | Some _ \<Rightarrow> Some (rs(r \<mapsto> st)))"

text \<open>
  The calls to the platform that one accept makes. Whether a call succeeds is the
  platform's answer, the parameter \<open>ok\<close> of the operations below; \<open>platformMsg\<close>
  is the message of the error a failed call throws.
\<close>

datatype acceptCall =
  UpdateRequest | GetReceiver | GetSender | CommitBatch | UpdateReceiver | UpdateSender

datatype acceptOutcome = NotSignedIn | AcceptSuccess string | AcceptError string

definition failedToAccept :: "string \<Rightarrow> acceptOutcome" where
  "failedToAccept msg =
     AcceptError (''Failed to accept friend request: '' @
       (if msg = [] then ''Unknown error'' else msg))"

definition nowFriends :: "FriendRequest \<Rightarrow> acceptOutcome" where
  "nowFriends request =
     AcceptSuccess (''You are now friends with '' @ senderDisplayName request @ ''!'')"

text \<open>
  A write batch: the updates queued by \<^verbatim>\<open>batch.update\<close>, each a profile and the
  element to add. \<^verbatim>\<open>batch.commit()\<close> applies all of them or none.
\<close>

fun applyBatch ::
  "(string \<rightharpoonup> UserDoc) \<Rightarrow> (string \<times> string) list \<Rightarrow> (string \<rightharpoonup> UserDoc) option" where
  "applyBatch us [] = Some us"
| "applyBatch us ((u, v) # b) =
     (case updateDoc_friends us u v of None \<Rightarrow> None | Some us' \<Rightarrow> applyBatch us' b)"

text \<open>
  \<^verbatim>\<open>acceptFriendRequest\<close> of src/unnamed/part_008, lines 803-882: the status
  update, the two reads with their existence checks, the batch with the updates that
  are needed, the commit.
\<close>

definition acceptFriendRequest ::
  "(acceptCall \<Rightarrow> bool) \<Rightarrow> string \<Rightarrow> firestore \<Rightarrow> string option \<Rightarrow> FriendRequest
     \<Rightarrow> firestore \<times> acceptOutcome" where
  "acceptFriendRequest ok platformMsg db currentUser request =
     (case currentUser of
        None \<Rightarrow> (db, NotSignedIn)
      | Some me \<Rightarrow>
         (case (if ok UpdateRequest
                then updateDoc_status (friendRequests db) (requestId request) ReqAccepted
                else None) of
            None \<Rightarrow> (db, failedToAccept platformMsg)
          | Some rs \<Rightarrow>
             (let db1 = db\<lparr>friendRequests := rs\<rparr> in
              if \<not> ok GetReceiver then (db1, failedToAccept platformMsg)
              else
               (case users db1 me of
                  None \<Rightarrow> (db1, failedToAccept ''Your user document does not exist'')
                | Some currentUserData \<Rightarrow>
                   (if \<not> ok GetSender then (db1, failedToAccept platformMsg)
                    else
                     (case users db1 (senderUid request) of
                        None \<Rightarrow>
                          (db1, failedToAccept
                             (''User document for '' @ senderDisplayName request @
                              '' not found''))
                      | Some senderData \<Rightarrow>
                         (let currentUserFriends = friendsOrEmpty currentUserData;
                              senderFriends = friendsOrEmpty senderData;
                              batch =
                                (if senderUid request \<notin> set currentUserFriends
                                 then [(me, senderUid request)] else []) @
                                (if me \<notin> set senderFriends
                                 then [(senderUid request, me)] else [])
                          in (case (if ok CommitBatch
                                    then applyBatch (users db1) batch else None) of
                                None \<Rightarrow> (db1, failedToAccept platformMsg)
                              | Some us \<Rightarrow> (db1\<lparr>users := us\<rparr>, nowFriends request)))))))))"

text \<open>
  \<^verbatim>\<open>acceptFriendRequest\<close> of src/src/pages/Friends.tsx, lines 416-453: the status
  update, then two separate \<^verbatim>\<open>updateDoc\<close> calls, the receiver's profile first.
  An error thrown by any of them ends the operation in the \<^verbatim>\<open>catch\<close> branch;
  what was written before stays written.
\<close>

definition acceptFriendRequest_sequential ::
  "(acceptCall \<Rightarrow> bool) \<Rightarrow> string \<Rightarrow> firestore \<Rightarrow> string option \<Rightarrow> FriendRequest
     \<Rightarrow> firestore \<times> acceptOutcome" where
  "acceptFriendRequest_sequential ok platformMsg db currentUser request =
     (case currentUser of
        None \<Rightarrow> (db, NotSignedIn)
      | Some me \<Rightarrow>
         (case (if ok UpdateRequest
                then updateDoc_status (friendRequests db) (requestId request) ReqAccepted
                else None) of
            None \<Rightarrow> (db, failedToAccept platformMsg)
          | Some rs \<Rightarrow>
             (let db1 = db\<lparr>friendRequests := rs\<rparr> in
              (case (if ok UpdateReceiver
                     then updateDoc_friends (users db1) me (senderUid request) else None) of
                 None \<Rightarrow> (db1, failedToAccept platformMsg)
               | Some us1 \<Rightarrow>
                  (let db2 = db1\<lparr>users := us1\<rparr> in
                   (case (if ok UpdateSender
                          then updateDoc_friends (users db2) (senderUid request) me
                          else None) of
                      None \<Rightarrow> (db2, failedToAccept platformMsg)
                    | Some us2 \<Rightarrow> (db2\<lparr>users := us2\<rparr>, nowFriends request)))))))"

text \<open>Whether \<open>b\<close> is in the friends array of \<open>a\<close>'s profile.\<close>

definition inFriends :: "(string \<rightharpoonup> UserDoc) \<Rightarrow> string \<Rightarrow> string \<Rightarrow> bool" where
  "inFriends us a b = (case us a of None \<Rightarrow> False | Some d \<Rightarrow> b \<in> set (friendsOrEmpty d))"

definition hasFriend :: "firestore \<Rightarrow> string \<Rightarrow> string \<Rightarrow> bool" where
  "hasFriend db a b = inFriends (users db) a b"

text \<open>
  Two profiles without friends, and the pending request that bob sent to alice.
\<close>

definition twoProfiles :: firestore where
  "twoProfiles =
     \<lparr> users = [''alice'' \<mapsto> \<lparr>friends = Some []\<rparr>, ''bob'' \<mapsto> \<lparr>friends = Some []\<rparr>],
       friendRequests = [''r1'' \<mapsto> ReqPending] \<rparr>"

definition bobsRequest :: FriendRequest where
  "bobsRequest = \<lparr>requestId = ''r1'', senderUid = ''bob'', senderDisplayName = ''Bob''\<rparr>"

section \<open>Presence (src/src/contexts/AuthContext.tsx, lines 648-986)\<close>

text \<open>
  The node \<^verbatim>\<open>status/{uid}\<close> of the realtime database. A field that is not
  stored is \<open>None\<close>; \<open>sessions\<close> lists the keys of the child
  \<^verbatim>\<open>sessions\<close> with their values, in the order of insertion, and is empty when
  the child is not stored (the database keeps no empty object). A node with nothing
  stored does not exist: its snapshot's \<^verbatim>\<open>val()\<close> is \<^verbatim>\<open>null\<close>.
\<close>

record StatusNode =
  isOnline :: "bool option"
  isShitting :: "bool option"
  lastActive :: "nat option"
  sessions :: "(string \<times> bool) list"

definition emptyNode :: StatusNode where
  "emptyNode = \<lparr>isOnline = None, isShitting = None, lastActive = None, sessions = []\<rparr>"

type_synonym statusDb = "string \<Rightarrow> StatusNode"

text \<open>
  A location of the database that a write or a disconnect hook names: the whole node
  of an identity, or one key under its \<^verbatim>\<open>sessions\<close>.
\<close>

datatype dbPath = StatusPath string | SessionPath string string

text \<open>
  \<^verbatim>\<open>set(ref, null)\<close> and \<^verbatim>\<open>onDisconnect(ref).remove()\<close> when it fires: what is
  stored at the location is removed.
\<close>

fun removeAt :: "statusDb \<Rightarrow> dbPath \<Rightarrow> statusDb" where
  "removeAt db (StatusPath u) = db(u := emptyNode)"
| "removeAt db (SessionPath u sid) =
     db(u := (db u)\<lparr>sessions := AList.delete sid (sessions (db u))\<rparr>)"

text \<open>
  One client (browser tab): the database it shares with the others, and the hooks it
  has registered with \<^verbatim>\<open>onDisconnect\<close>, which the server runs when the client's
  connection drops.
\<close>

record client =
  statusDb :: statusDb
  hooks :: "dbPath list"

definition connectionDropped :: "client \<Rightarrow> statusDb" where
  "connectionDropped c = foldl removeAt (statusDb c) (hooks c)"

text \<open>\<^verbatim>\<open>register\<close>, lines 711-747: the status write and the hook.\<close>

definition register_status :: "string \<Rightarrow> nat \<Rightarrow> string \<Rightarrow> client \<Rightarrow> client" where
  "register_status sessionId now u c =
     \<lparr> statusDb = (statusDb c)(u :=
         \<lparr>isOnline = Some True, isShitting = Some False, lastActive = Some now,
          sessions = [(sessionId, True)]\<rparr>),
       hooks = hooks c @ [SessionPath u sessionId] \<rparr>"

text \<open>
  \<^verbatim>\<open>logout\<close>, lines 760-775: \<open>writeOk\<close> says whether the \<^verbatim>\<open>set\<close> succeeds; when it
  throws nothing is written.
\<close>

definition logout :: "string \<Rightarrow> bool \<Rightarrow> string option \<Rightarrow> statusDb \<Rightarrow> statusDb" where
  "logout sessionId writeOk currentUser db =
     (case currentUser of
        None \<Rightarrow> db
      | Some u \<Rightarrow> if writeOk then removeAt db (SessionPath u sessionId) else db)"

text \<open>
  \<^verbatim>\<open>updateUserStatus\<close>, lines 777-813. Both branches write a whole node; in the
  first the sessions already stored are kept (\<^verbatim>\<open>{...sessions, [sessionId]: true}\<close>).
\<close>

definition updateUserStatus ::
  "string \<Rightarrow> nat \<Rightarrow> string option \<Rightarrow> bool \<Rightarrow> client \<Rightarrow> client" where
  "updateUserStatus sessionId now currentUser shitting c =
     (case currentUser of
        None \<Rightarrow> c
      | Some u \<Rightarrow>
         (let node = statusDb c u;
              written =
                (if node \<noteq> emptyNode
                 then \<lparr>isOnline = Some True, isShitting = Some shitting, lastActive = Some now,
                       sessions = AList.update sessionId True (sessions node)\<rparr>
                 else \<lparr>isOnline = Some True, isShitting = Some shitting, lastActive = Some now,
                       sessions = [(sessionId, True)]\<rparr>)
          in \<lparr> statusDb = (statusDb c)(u := written),
               hooks = hooks c @ [SessionPath u sessionId] \<rparr>))"

text \<open>
  The effect on \<^verbatim>\<open>onAuthStateChanged\<close> for a signed-in user, lines 848-873: the node
  stored, or the default object of lines 853-858 when there is none, is written back
  with \<^verbatim>\<open>isOnline: true\<close>, the clock and this session's key.
\<close>

definition attach :: "string \<Rightarrow> nat \<Rightarrow> string \<Rightarrow> client \<Rightarrow> client" where
  "attach sessionId now u c =
     (let node = statusDb c u;
          existingStatus =
            (if node \<noteq> emptyNode then node
             else \<lparr>isOnline = Some False, isShitting = Some False, lastActive = Some now,
                   sessions = []\<rparr>)
      in \<lparr> statusDb = (statusDb c)(u :=
             existingStatus\<lparr>isOnline := Some True, lastActive := Some now,
               sessions := AList.update sessionId True (sessions existingStatus)\<rparr>),
           hooks = hooks c @ [SessionPath u sessionId] \<rparr>)"

text \<open>
  The listener of lines 875-897 and the friend lists of src/unnamed/part_001 (lines
  107-108 and 514-515) compute
  \<^verbatim>\<open>status.sessions && Object.keys(status.sessions).length > 0\<close>; the value is
  rendered by its truthiness.
\<close>

definition hasActiveSessions :: "StatusNode \<Rightarrow> bool" where
  "hasActiveSessions st = (sessions st \<noteq> [] \<and> 0 < length (map fst (sessions st)))"

text \<open>
  The friend list of src/src/components/OnlineUsers.tsx, lines 55-61, reads the stored
  field; the one of src/unnamed/part_001, lines 105-115, the sessions. \<open>me\<close> is the
  viewer, \<open>now\<close> the clock in milliseconds.
\<close>

definition listedOnline_stored ::
  "string \<Rightarrow> string list \<Rightarrow> nat \<Rightarrow> string \<Rightarrow> StatusNode \<Rightarrow> bool" where
  "listedOnline_stored me myFriends now u st =
     (u \<noteq> me \<and> isOnline st = Some True \<and> u \<in> set myFriends \<and>
      (case lastActive st of None \<Rightarrow> False | Some t \<Rightarrow> int now - int t < 300000))"

definition listedOnline_sessions ::
  "string \<Rightarrow> string list \<Rightarrow> nat \<Rightarrow> string \<Rightarrow> StatusNode \<Rightarrow> bool" where
  "listedOnline_sessions me myFriends now u st =
     (u \<noteq> me \<and> hasActiveSessions st \<and> u \<in> set myFriends \<and>
      int now - int (case lastActive st of None \<Rightarrow> 0 | Some t \<Rightarrow> t) < 300000)"

text \<open>A tab of alice's that attaches to an empty database at time 1000 and logs out.\<close>

definition aliceTab :: client where
  "aliceTab = attach ''s1'' 1000 ''alice'' \<lparr>statusDb = (\<lambda>_. emptyNode), hooks = []\<rparr>"

definition aliceLoggedOut :: statusDb where
  "aliceLoggedOut = logout ''s1'' True (Some ''alice'') (statusDb aliceTab)"

text \<open>The database when alice has opened a second tab at time 1500.\<close>

definition twoTabs :: statusDb where
  "twoTabs = statusDb (attach ''s2'' 1500 ''alice'' aliceTab)"

section \<open>The invite coordinator (src/unnamed/part_011, \<^verbatim>\<open>fetchGameState\<close>, lines 49-127)\<close>

datatype inviteStatus = InvAccepted | InvPending | InvRejected | InvCancelled

record GameInviteData =
  senderId :: string
  receiverId :: string
  inviteStatus :: inviteStatus
  gameId :: "string option"

text \<open>
  The collection \<^verbatim>\<open>gameInvites\<close>: the documents with their ids, in the order in
  which a query returns them. \<^verbatim>\<open>deleteDoc\<close> removes the document of an id.
\<close>

type_synonym gameInvites = "(string \<times> GameInviteData) list"

definition deleteDoc :: "string \<Rightarrow> gameInvites \<Rightarrow> gameInvites" where
  "deleteDoc docId col = filter (\<lambda>d. fst d \<noteq> docId) col"

definition acceptedAsSender :: "string \<Rightarrow> gameInvites \<Rightarrow> gameInvites" where
  "acceptedAsSender me col =
     filter (\<lambda>d. senderId (snd d) = me \<and> inviteStatus (snd d) = InvAccepted) col"

definition acceptedAsReceiver :: "string \<Rightarrow> gameInvites \<Rightarrow> gameInvites" where
  "acceptedAsReceiver me col =
     filter (\<lambda>d. receiverId (snd d) = me \<and> inviteStatus (snd d) = InvAccepted) col"

definition pendingAsReceiver :: "string \<Rightarrow> gameInvites \<Rightarrow> gameInvites" where
  "pendingAsReceiver me col =
     filter (\<lambda>d. receiverId (snd d) = me \<and> inviteStatus (snd d) = InvPending) col"

text \<open>The state of the provider: lines 40-43.\<close>

record GameContext =
  activeGameId :: "string option"
  activeOpponentId :: "string option"
  activeInviteId :: "string option"
  pendingInvites :: gameInvites

text \<open>
  Lines 65-75 and 91-101, applied to \<^verbatim>\<open>docs[0]\<close> of a query: an invite without a
  game id (missing or the empty string) is passed over; one whose game document exists
  with a status other than \<^verbatim>\<open>completed\<close> is surfaced; any other is deleted.
\<close>

datatype firstInvite = PassedOver | Surface string | Stale

definition checkFirst :: "wordleGames \<Rightarrow> GameInviteData \<Rightarrow> firstInvite" where
  "checkFirst g invite =
     (case gameId invite of
        None \<Rightarrow> PassedOver
      | Some gid \<Rightarrow>
          if gid = [] then PassedOver
          else (case g gid of
                  None \<Rightarrow> Stale
                | Some doc \<Rightarrow> if status doc \<noteq> Completed then Surface gid else Stale))"

text \<open>A string state of the provider is falsy when it is null or empty.\<close>

definition falsy :: "string option \<Rightarrow> bool" where
  "falsy v = (v = None \<or> v = Some [])"

text \<open>Lines 104-123: the pending invites addressed to the caller.\<close>

definition pendingPhase :: "string \<Rightarrow> GameContext \<Rightarrow> gameInvites \<Rightarrow> GameContext" where
  "pendingPhase me ctx col =
     (let invitesList = pendingAsReceiver me col;
          ctx1 = ctx\<lparr>pendingInvites := invitesList\<rparr>
      in if invitesList \<noteq> [] \<and> falsy (activeInviteId ctx) \<and> falsy (activeGameId ctx)
         then ctx1\<lparr>activeInviteId := Some (fst (hd invitesList))\<rparr>
         else ctx1)"

text \<open>Lines 78-123: the invites the caller received, then the pending ones.\<close>

definition receiverPhase ::
  "string \<Rightarrow> wordleGames \<Rightarrow> GameContext \<Rightarrow> gameInvites \<Rightarrow> gameInvites \<times> GameContext" where
  "receiverPhase me g ctx col =
     (case acceptedAsReceiver me col of
        [] \<Rightarrow> (col, pendingPhase me ctx col)
      | d # _ \<Rightarrow>
         (case checkFirst g (snd d) of
            Surface gid \<Rightarrow>
              (col, ctx\<lparr>activeGameId := Some gid, activeOpponentId := Some (senderId (snd d))\<rparr>)
          | Stale \<Rightarrow> (deleteDoc (fst d) col, pendingPhase me ctx (deleteDoc (fst d) col))
          | PassedOver \<Rightarrow> (col, pendingPhase me ctx col)))"

text \<open>
  One tick of the poller for the signed-in caller \<open>me\<close>: the invites the caller sent
  first. The platform's calls are taken to succeed (a call that throws ends the tick in
  the \<^verbatim>\<open>catch\<close> branch of line 124).
\<close>

definition fetchGameState ::
  "string \<Rightarrow> wordleGames \<Rightarrow> GameContext \<Rightarrow> gameInvites \<Rightarrow> gameInvites \<times> GameContext" where
  "fetchGameState me g ctx col =
     (case acceptedAsSender me col of
        [] \<Rightarrow> receiverPhase me g ctx col
      | d # _ \<Rightarrow>
         (case checkFirst g (snd d) of
            Surface gid \<Rightarrow>
              (col, ctx\<lparr>activeGameId := Some gid,
                        activeOpponentId := Some (receiverId (snd d))\<rparr>)
          | Stale \<Rightarrow> receiverPhase me g ctx (deleteDoc (fst d) col)
          | PassedOver \<Rightarrow> receiverPhase me g ctx col))"

text \<open>
  A seeded store: two games that are over, and two accepted invites that ann sent, one
  for each game.
\<close>

definition seededGames :: wordleGames where
  "seededGames = [''g1'' \<mapsto> overGame, ''g2'' \<mapsto> overGame]"

definition seededInvites :: gameInvites where
  "seededInvites =
     [(''i1'', \<lparr>senderId = ''ann'', receiverId = ''bob'', inviteStatus = InvAccepted,
               gameId = Some ''g1''\<rparr>),
      (''i2'', \<lparr>senderId = ''ann'', receiverId = ''cat'', inviteStatus = InvAccepted,
               gameId = Some ''g2''\<rparr>)]"

text \<open>The same invites, and after them an accepted invite that ann received from dan.\<close>

definition mixedInvites :: gameInvites where
  "mixedInvites =
     seededInvites @
     [(''i3'', \<lparr>senderId = ''dan'', receiverId = ''ann'', inviteStatus = InvAccepted,
               gameId = Some ''g2''\<rparr>)]"

text \<open>The same store while the first game is still being played.\<close>

definition liveGames :: wordleGames where
  "liveGames = [''g1'' \<mapsto> startGame, ''g2'' \<mapsto> overGame]"

definition idleContext :: GameContext where
  "idleContext = \<lparr>activeGameId = None, activeOpponentId = None, activeInviteId = None,
     pendingInvites = []\<rparr>"

section \<open>Friend recommendations (src/src/services/friendService.ts)\<close>

text \<open>
  A \<^verbatim>\<open>Map\<close> is modelled by the list of its entries in insertion order;
  \<^verbatim>\<open>set\<close> on a key already present replaces its value in place, on a new key it
  appends the entry (which is \<open>AList.update\<close>); \<^verbatim>\<open>get(k) || 0\<close> is
  \<open>getOrZero\<close>.
\<close>

record Recommendation =
  rec_uid :: string
  mutualFriends :: nat

definition getOrZero :: "(string \<times> nat) list \<Rightarrow> string \<Rightarrow> nat" where
  "getOrZero m k = (case map_of m k of None \<Rightarrow> 0 | Some c \<Rightarrow> c)"

text \<open>Lines 87-98: the inner loop over one friend's friends.\<close>

fun countFriendsFriends ::
  "string \<Rightarrow> string list \<Rightarrow> string list \<Rightarrow> (string \<times> nat) list \<Rightarrow> (string \<times> nat) list" where
  "countFriendsFriends me fs [] m = m"
| "countFriendsFriends me fs (potentialFriend # rest) m =
     (if potentialFriend = me \<or> potentialFriend \<in> set fs
      then countFriendsFriends me fs rest m
      else countFriendsFriends me fs rest
             (AList.update potentialFriend (getOrZero m potentialFriend + 1) m))"

text \<open>Lines 86-99: the outer loop over the entries of \<^verbatim>\<open>friendsOfFriends\<close>.\<close>

fun candidatesMap ::
  "string \<Rightarrow> string list \<Rightarrow> (string \<times> string list) list \<Rightarrow> (string \<times> nat) list
     \<Rightarrow> (string \<times> nat) list" where
  "candidatesMap me fs [] m = m"
| "candidatesMap me fs (entry # rest) m =
     candidatesMap me fs rest (countFriendsFriends me fs (snd entry) m)"

text \<open>
  Lines 102-106. \<^verbatim>\<open>Array.prototype.sort\<close> is stable, and the comparator orders by
  \<^verbatim>\<open>mutualFriends\<close> descending: the stable insertion sort on the negated count.
\<close>

definition calculateRecommendations ::
  "string \<Rightarrow> string list \<Rightarrow> (string \<times> string list) list \<Rightarrow> Recommendation list" where
  "calculateRecommendations currentUserId allCurrentUserFriends friendsOfFriends =
     sort_key (\<lambda>r. - int (mutualFriends r))
       (map (\<lambda>e. \<lparr>rec_uid = fst e, mutualFriends = snd e\<rparr>)
          (candidatesMap currentUserId allCurrentUserFriends friendsOfFriends []))"

text \<open>Lines 171-173 of \<^verbatim>\<open>getFriendRecommendations\<close>, whose \<open>limit\<close> defaults to 5.\<close>

definition topRecommendationIds :: "nat \<Rightarrow> Recommendation list \<Rightarrow> string list" where
  "topRecommendationIds limit recommendations = map rec_uid (take limit recommendations)"

text \<open>
  For the statements about the ranking: a list without its repetitions (the first
  occurrence of each element stays), the candidates in the order in which the loops
  first meet them, and the number of entries of \<^verbatim>\<open>friendsOfFriends\<close> whose list
  holds a candidate.
\<close>

fun firstSeen :: "'a list \<Rightarrow> 'a list" where
  "firstSeen [] = []"
| "firstSeen (x # xs) = x # filter (\<lambda>y. y \<noteq> x) (firstSeen xs)"

definition firstMet :: "string \<Rightarrow> string list \<Rightarrow> (string \<times> string list) list \<Rightarrow> string list" where
  "firstMet me fs fof =
     firstSeen (filter (\<lambda>c. c \<noteq> me \<and> c \<notin> set fs) (concat (map snd fof)))"

definition reachableThrough :: "(string \<times> string list) list \<Rightarrow> string \<Rightarrow> nat" where
  "reachableThrough fof c = length (filter (\<lambda>e. c \<in> set (snd e)) fof)"

text \<open>
  The number of times a candidate stands in the lists of \<^verbatim>\<open>friendsOfFriends\<close>,
  which is what the loops count, and two maps with the same two entries, inserted in
  either order.
\<close>

definition occurrences :: "(string \<times> string list) list \<Rightarrow> string \<Rightarrow> nat" where
  "occurrences fof c = sum_list (map (\<lambda>e. count_list (snd e) c) fof)"

definition graphZedFirst :: "(string \<times> string list) list" where
  "graphZedFirst = [(''f1'', [''zed'', ''amy'', ''me'']), (''f2'', [''bea'', ''amy'', ''f1''])]"

definition graphBeaFirst :: "(string \<times> string list) list" where
  "graphBeaFirst = [(''f2'', [''bea'', ''amy'', ''f1'']), (''f1'', [''zed'', ''amy'', ''me''])]"

section \<open>The friends hash and the caches it keys\<close>

text \<open>
  \<^verbatim>\<open>generateFriendsHash\<close> (src/src/utils/tweetCache.ts, lines 4-6, and
  src/src/services/friendService.ts, lines 34-36): \<^verbatim>\<open>friends.sort().join('|')\<close>.
  The default sort compares strings by their code units, which is the lexicographic
  order on lists of characters.
\<close>

fun join :: "string \<Rightarrow> string list \<Rightarrow> string" where
  "join sep [] = []"
| "join sep [x] = x"
| "join sep (x # y # ys) = x @ sep @ join sep (y # ys)"

definition generateFriendsHash :: "string list \<Rightarrow> string" where
  "generateFriendsHash fs = join ''|'' (sort fs)"

text \<open>
  What \<^verbatim>\<open>localStorage.getItem\<close> followed by \<^verbatim>\<open>JSON.parse\<close> gives: no item,
  an item that does not parse (the \<^verbatim>\<open>catch\<close> branch), or the cached object.
\<close>

datatype 'a stored = NoItem | Unparsable | Cached 'a

record 'a FriendRecommendationsCache =
  recommendations :: "'a list"
  rc_lastUpdated :: nat
  rc_friendsHash :: string
  sampledFriends :: "string list"

definition cacheRecommendations ::
  "nat \<Rightarrow> 'a list \<Rightarrow> string list \<Rightarrow> string list \<Rightarrow> 'a FriendRecommendationsCache stored" where
  "cacheRecommendations now recs allFriends sampled =
     Cached \<lparr>recommendations = recs, rc_lastUpdated = now,
             rc_friendsHash = generateFriendsHash allFriends, sampledFriends = sampled\<rparr>"

definition getCachedRecommendations ::
  "'a FriendRecommendationsCache stored \<Rightarrow> nat \<Rightarrow> string list \<Rightarrow> nat \<Rightarrow> 'a list option" where
  "getCachedRecommendations item now fs maxAge =
     (case item of
        NoItem \<Rightarrow> None
      | Unparsable \<Rightarrow> None
      | Cached cache \<Rightarrow>
          if int now - int (rc_lastUpdated cache) > int maxAge
             \<or> rc_friendsHash cache \<noteq> generateFriendsHash fs
          then None else Some (recommendations cache))"

record 'a TimelineCache =
  tweets :: "'a list"
  tc_lastUpdated :: nat
  tc_friendsHash :: string
  lastLoadedActivity :: nat

definition getCachedTimeline ::
  "'a TimelineCache stored \<Rightarrow> nat \<Rightarrow> string list \<Rightarrow> nat \<Rightarrow> 'a TimelineCache option" where
  "getCachedTimeline item now fs maxAge =
     (case item of
        NoItem \<Rightarrow> None
      | Unparsable \<Rightarrow> None
      | Cached cache \<Rightarrow>
          if int now - int (tc_lastUpdated cache) > int maxAge
             \<or> tc_friendsHash cache \<noteq> generateFriendsHash fs
          then None else Some cache)"

section \<open>Theorems: the word game\<close>

lemma handleSubmitGuess_Updated:
  "handleSubmitGuess (Some gs) d (Some me) guess ok = Updated d' msg \<Longrightarrow>
     currentPlayer gs = me \<and> length guess = 5 \<and> ok \<and>
     d' = updateDoc_game d (guessUpdatesOf gs me guess)"
  by (simp add: handleSubmitGuess_def split: if_splits)

lemma updateDoc_game_status:
  "status (updateDoc_game d (guessUpdatesOf gs me guess)) =
     (if guess = word gs then Completed else status d)"
  by (simp add: updateDoc_game_def guessUpdatesOf_def Let_def split: guessesField.splits)


lemma updateDoc_game_word:
  "word (updateDoc_game d (guessUpdatesOf gs me guess)) = word d"
  by (simp add: updateDoc_game_def guessUpdatesOf_def Let_def split: guessesField.splits)

lemma updateDoc_game_players:
  "player1 (updateDoc_game d (guessUpdatesOf gs me guess)) = player1 d \<and>
   player2 (updateDoc_game d (guessUpdatesOf gs me guess)) = player2 d \<and>
   currentPlayer (updateDoc_game d (guessUpdatesOf gs me guess)) =
     (if me = player1 gs then player2 gs else player1 gs)"
  by (simp add: updateDoc_game_def guessUpdatesOf_def Let_def split: guessesField.splits)


lemma startGame_wrong_guess:
  "handleSubmitGuess (Some startGame) startGame (Some ''ann'') ''WIPES'' True =
     Updated (startGame\<lparr>player1Guesses := [''WIPES''], currentPlayer := ''bob''\<rparr>)
       ''Guess submitted!''"
  by (simp add: startGame_def handleSubmitGuess_def newGameState_def
      WORDS_def updateDoc_game_def guessUpdatesOf_def)

text \<open>
  Claim C1, as stated, fails for a client whose snapshot is behind the store. Ann has the
  game open in two tabs, both showing the new game with her turn. In the first tab she
  guesses the word: the stored game is completed and the turn is bob's. Before the
  second tab has received that change she presses Enter there with another guess; the
  keyboard is rendered, since the tab's snapshot is active and it is her turn, and the
  handler accepts. The write replaces her guess list in the completed game, and the
  stored current player is bob before and after this accepted submission.
\<close>

theorem C1_stale_tab_changes_completed_game:
  "handleSubmitGuess (Some startGame) startGame (Some ''ann'') ''FLUSH'' True =
     Updated overGame ''You won!'' \<and>
   status overGame = Completed \<and> currentPlayer overGame = ''bob'' \<and>
   player1Guesses overGame = [''FLUSH''] \<and>
   clickEnter startGame overGame (Some ''ann'') ''WIPES'' True =
     Updated \<lparr> word = ''FLUSH'', currentPlayer = ''bob'', player1 = ''ann'', player2 = ''bob'',
               player1Guesses = [''WIPES''], player2Guesses = [], status = Completed,
               winner = Some ''ann'', createdAt = 0 \<rparr>
       ''Guess submitted!''"
  by (simp add: startGame_def overGame_def clickEnter_def keyboardRendered_def
      enterDisabled_def handleSubmitGuess_def newGameState_def WORDS_def updateDoc_game_def
      guessUpdatesOf_def)

text \<open>
  Claim C1, amended. The handler takes its checks from the caller's snapshot and patches
  the stored document. Every accepted submission (the caller is the snapshot's current
  player, the guess has five letters, the write succeeds) sets the stored current player
  to the snapshot's other player, leaves the stored word and player slots as they are
  and keeps a stored status completed as completed. When the snapshot is the stored
  document and its current player is one of its two distinct players, the turn thereby
  passes to the other player. The handler has no check of the status; the keyboard with
  the Enter button, its only caller, is rendered only while the snapshot's status is not
  completed, so a client that has seen the completion submits nothing.
\<close>

theorem C1_turn_alternates:
  assumes "handleSubmitGuess (Some gs) d (Some me) guess writeOk = Updated d' msg"
  shows "currentPlayer gs = me \<and> length guess = 5 \<and>
         player1 d' = player1 d \<and> player2 d' = player2 d \<and> word d' = word d \<and>
         currentPlayer d' = (if me = player1 gs then player2 gs else player1 gs) \<and>
         (status d = Completed \<longrightarrow> status d' = Completed) \<and>
         (d = gs \<and> currentPlayer gs \<in> {player1 gs, player2 gs} \<and> player1 gs \<noteq> player2 gs \<longrightarrow>
            currentPlayer d' \<in> {player1 d, player2 d} \<and> currentPlayer d' \<noteq> currentPlayer d) \<and>
         (status snap = Completed \<longrightarrow> clickEnter snap stored user typed ok = NoCall)"
proof -
  from assms have me: "currentPlayer gs = me" and len: "length guess = 5"
    and g: "d' = updateDoc_game d (guessUpdatesOf gs me guess)"
    by (simp_all add: handleSubmitGuess_Updated)
  have gate: "status snap = Completed \<longrightarrow> clickEnter snap stored user typed ok = NoCall"
    by (simp add: clickEnter_def keyboardRendered_def)
  have frame: "player1 d' = player1 d \<and> player2 d' = player2 d \<and> word d' = word d \<and>
         currentPlayer d' = (if me = player1 gs then player2 gs else player1 gs) \<and>
         (status d = Completed \<longrightarrow> status d' = Completed)"
    by (simp add: g updateDoc_game_players updateDoc_game_word updateDoc_game_status)
  have sync: "d = gs \<and> currentPlayer gs \<in> {player1 gs, player2 gs} \<and> player1 gs \<noteq> player2 gs \<longrightarrow>
            currentPlayer d' \<in> {player1 d, player2 d} \<and> currentPlayer d' \<noteq> currentPlayer d"
    using me by (auto simp: g updateDoc_game_players)
  from me len frame sync gate show ?thesis by blast
qed

theorem C1_turn_alternates_witness:
  "handleSubmitGuess (Some startGame) startGame (Some ''ann'') ''WIPES'' True =
     Updated (startGame\<lparr>player1Guesses := [''WIPES''], currentPlayer := ''bob''\<rparr>)
       ''Guess submitted!'' \<and>
   currentPlayer startGame = ''ann'' \<and> player1 startGame = ''ann'' \<and>
   player2 startGame = ''bob'' \<and>
   currentPlayer (startGame\<lparr>player1Guesses := [''WIPES''], currentPlayer := ''bob''\<rparr>)
     \<noteq> currentPlayer startGame \<and>
   status overGame = Completed \<and>
   clickEnter overGame overGame (Some ''bob'') ''WIPES'' True = NoCall"
proof -
  have h2: "currentPlayer startGame \<in> {player1 startGame, player2 startGame}"
    by (simp add: startGame_def newGameState_def)
  have h3: "player1 startGame \<noteq> player2 startGame"
    by (simp add: startGame_def newGameState_def)
  have h4: "status overGame = Completed"
    by (simp add: overGame_def)
  from C1_turn_alternates [OF startGame_wrong_guess, of overGame overGame "Some ''bob''"
      "''WIPES''" True]
  show ?thesis
    using startGame_wrong_guess h2 h3 h4 by (simp add: startGame_def newGameState_def)
qed









text \<open>
  Claim C3, as stated, fails: for the secret FLUSH and the guess SLUSH the tiles are not
  absent, absent, exact, exact, exact.
\<close>

theorem C3_flush_slush_not_as_claimed:
  "renderGuessResult (Some startGame) ''SLUSH'' \<noteq> Some [Absent, Absent, Exact, Exact, Exact]"
  by (simp add: renderGuessResult_def startGame_def newGameState_def WORDS_def bgColor_def
      enumerate_eq_zip upt_rec)

lemma flush_slush:
  "renderGuessResult (Some startGame) ''SLUSH'' = Some [Present, Exact, Exact, Exact, Exact]"
  by (simp add: renderGuessResult_def startGame_def newGameState_def WORDS_def bgColor_def
      enumerate_eq_zip upt_rec)

lemma round_rural:
  "renderGuessResult (Some (startGame\<lparr>word := ''ROUND''\<rparr>)) ''RURAL'' =
     Some [Exact, Present, Present, Absent, Absent]"
  by (simp add: renderGuessResult_def startGame_def newGameState_def WORDS_def bgColor_def
      enumerate_eq_zip upt_rec)

text \<open>
  Claim C3, amended. The feedback has one tile for each letter of the guess, and each
  letter is classed on its own: exact when the secret has the same letter at the same
  position, otherwise present when the secret holds the letter anywhere, otherwise
  absent. Repeated letters are not accounted for: a letter of the secret that an exact
  match has used still makes the same letter elsewhere in the guess present. For the
  secret FLUSH and the guess SLUSH the classes are present, exact, exact, exact, exact;
  for the secret ROUND and the guess RURAL they are exact, present, present, absent,
  absent.
\<close>

theorem C3_feedback_letter_by_letter:
  assumes "renderGuessResult (Some gs) guess = Some cs"
  shows "length cs = length guess \<and>
         (\<forall>i < length guess. cs ! i =
            (if i < length (word gs) \<and> word gs ! i = guess ! i then Exact
             else if guess ! i \<in> set (word gs) then Present else Absent)) \<and>
         renderGuessResult (Some startGame) ''SLUSH'' =
           Some [Present, Exact, Exact, Exact, Exact] \<and>
         renderGuessResult (Some (startGame\<lparr>word := ''ROUND''\<rparr>)) ''RURAL'' =
           Some [Exact, Present, Present, Absent, Absent]"
proof -
  from assms have cs: "cs = map (\<lambda>(i, letter). bgColor (word gs) i letter) (enumerate 0 guess)"
    by (simp add: renderGuessResult_def)
  have "length cs = length guess \<and>
         (\<forall>i < length guess. cs ! i =
            (if i < length (word gs) \<and> word gs ! i = guess ! i then Exact
             else if guess ! i \<in> set (word gs) then Present else Absent))"
    by (simp add: cs nth_enumerate_eq bgColor_def)
  with flush_slush round_rural show ?thesis by simp
qed

theorem C3_feedback_letter_by_letter_witness:
  "renderGuessResult (Some (startGame\<lparr>word := ''ROUND''\<rparr>)) ''RURAL'' =
     Some [Exact, Present, Present, Absent, Absent] \<and>
   [Exact, Present, Present, Absent, Absent] ! 2 = Present \<and>
   ''ROUND'' ! 2 \<noteq> ''RURAL'' ! 2 \<and> ''RURAL'' ! 2 \<in> set ''ROUND'' \<and>
   ''ROUND'' ! 0 = ''RURAL'' ! 0"
proof -
  from C3_feedback_letter_by_letter [OF round_rural]
  have "[Exact, Present, Present, Absent, Absent] ! 2 =
          (if 2 < length (word (startGame\<lparr>word := ''ROUND''\<rparr>)) \<and>
              word (startGame\<lparr>word := ''ROUND''\<rparr>) ! 2 = ''RURAL'' ! 2 then Exact
           else if ''RURAL'' ! 2 \<in> set (word (startGame\<lparr>word := ''ROUND''\<rparr>)) then Present
           else Absent)"
    by simp
  then show ?thesis
    using round_rural by simp
qed












text \<open>One client alone does not replace a document that is there, and creates one that is not.\<close>

lemma initializeGame_existing:
  "g gid = Some d \<Longrightarrow> initializeGame gid c g = g"
  by (simp add: initializeGame_def initRun_def initStep_def)

lemma initializeGame_absent:
  "g gid = None \<Longrightarrow> initializeGame gid c g = g(gid \<mapsto> createdBy (\<lambda>_. c) ClientA)"
  by (simp add: initializeGame_def initRun_def initStep_def)

section \<open>Theorems: accepting a friend request\<close>

lemma arrayUnion_mem: "v \<in> set (arrayUnion xs v)"
  by (simp add: arrayUnion_def)

lemma arrayUnion_keeps: "x \<in> set xs \<Longrightarrow> x \<in> set (arrayUnion xs v)"
  by (simp add: arrayUnion_def)

lemma friendsOrEmpty_written: "friendsOrEmpty (d\<lparr>friends := Some xs\<rparr>) = xs"
  by (simp add: friendsOrEmpty_def)

lemma updateDoc_friends_Some:
  "updateDoc_friends us u v = Some us' \<Longrightarrow>
     (\<exists>d. us u = Some d \<and> us' = us(u \<mapsto> d\<lparr>friends := Some (arrayUnion (friendsOrEmpty d) v)\<rparr>))"
  by (auto simp: updateDoc_friends_def split: option.splits)

lemma updateDoc_friends_adds:
  assumes "updateDoc_friends us u v = Some us'"
  shows "inFriends us' u v"
proof -
  from updateDoc_friends_Some [OF assms] obtain d where
    "us' = us(u \<mapsto> d\<lparr>friends := Some (arrayUnion (friendsOrEmpty d) v)\<rparr>)" by blast
  then show ?thesis
    by (simp add: inFriends_def friendsOrEmpty_written arrayUnion_mem)
qed

lemma updateDoc_friends_keeps:
  assumes "updateDoc_friends us u v = Some us'" and "inFriends us a b"
  shows "inFriends us' a b"
proof -
  from updateDoc_friends_Some [OF assms(1)] obtain d where d: "us u = Some d"
    and us': "us' = us(u \<mapsto> d\<lparr>friends := Some (arrayUnion (friendsOrEmpty d) v)\<rparr>)" by blast
  show ?thesis
  proof (cases "a = u")
    case True
    with assms(2) d have "b \<in> set (friendsOrEmpty d)" by (simp add: inFriends_def)
    with True show ?thesis
      by (simp add: us' inFriends_def friendsOrEmpty_written arrayUnion_keeps)
  next
    case False
    with assms(2) show ?thesis by (simp add: us' inFriends_def)
  qed
qed

lemma applyBatch_keeps:
  "applyBatch us b = Some us' \<Longrightarrow> inFriends us x y \<Longrightarrow> inFriends us' x y"
proof (induction us b rule: applyBatch.induct)
  case (1 us)
  then show ?case by simp
next
  case (2 us u v b)
  from "2.prems"(1) obtain us1 where u1: "updateDoc_friends us u v = Some us1"
    and rest: "applyBatch us1 b = Some us'"
    by (auto split: option.splits)
  from updateDoc_friends_keeps [OF u1 "2.prems"(2)] have "inFriends us1 x y" .
  with "2.IH" [OF u1 rest] show ?case .
qed

lemma applyBatch_adds:
  "applyBatch us b = Some us' \<Longrightarrow> (u, v) \<in> set b \<Longrightarrow> inFriends us' u v"
proof (induction us b rule: applyBatch.induct)
  case (1 us)
  then show ?case by simp
next
  case (2 us u' v' b)
  from "2.prems"(1) obtain us1 where u1: "updateDoc_friends us u' v' = Some us1"
    and rest: "applyBatch us1 b = Some us'"
    by (auto split: option.splits)
  show ?case
  proof (cases "(u, v) = (u', v')")
    case True
    with updateDoc_friends_adds [OF u1] have "inFriends us1 u v" by simp
    with applyBatch_keeps [OF rest] show ?thesis .
  next
    case False
    with "2.prems"(2) have "(u, v) \<in> set b" by auto
    with "2.IH" [OF u1 rest] show ?thesis .
  qed
qed

lemma updateDoc_status_Some:
  "updateDoc_status rs r st = Some rs' \<Longrightarrow> rs' r = Some st"
  by (auto simp: updateDoc_status_def split: option.splits)

lemma failedToAccept_no_success: "failedToAccept m \<noteq> AcceptSuccess t"
  by (simp add: failedToAccept_def)

text \<open>The batched operation, opened up at a successful outcome.\<close>

lemma accept_batched_success_parts:
  assumes "acceptFriendRequest ok m db (Some me) req = (db', AcceptSuccess t)"
  obtains rs d1 d2 us where
    "updateDoc_status (friendRequests db) (requestId req) ReqAccepted = Some rs"
    "users db me = Some d1" "users db (senderUid req) = Some d2"
    "applyBatch (users db)
       ((if senderUid req \<notin> set (friendsOrEmpty d1) then [(me, senderUid req)] else []) @
        (if me \<notin> set (friendsOrEmpty d2) then [(senderUid req, me)] else [])) = Some us"
    "db' = db\<lparr>friendRequests := rs, users := us\<rparr>"
  using assms
  by (auto simp: acceptFriendRequest_def Let_def failedToAccept_no_success
      split: option.splits if_splits)

lemma accept_batched_success:
  assumes "acceptFriendRequest ok m db (Some me) req = (db', AcceptSuccess t)"
  shows "hasFriend db' me (senderUid req) \<and> hasFriend db' (senderUid req) me \<and>
         friendRequests db' (requestId req) = Some ReqAccepted"
proof -
  from assms obtain rs d1 d2 us where
    rs: "updateDoc_status (friendRequests db) (requestId req) ReqAccepted = Some rs"
    and d1: "users db me = Some d1" and d2: "users db (senderUid req) = Some d2"
    and b: "applyBatch (users db)
       ((if senderUid req \<notin> set (friendsOrEmpty d1) then [(me, senderUid req)] else []) @
        (if me \<notin> set (friendsOrEmpty d2) then [(senderUid req, me)] else [])) = Some us"
    and db': "db' = db\<lparr>friendRequests := rs, users := us\<rparr>"
    by (rule accept_batched_success_parts)
  have one: "inFriends us me (senderUid req)"
  proof (cases "senderUid req \<in> set (friendsOrEmpty d1)")
    case True
    with d1 have "inFriends (users db) me (senderUid req)" by (simp add: inFriends_def)
    with applyBatch_keeps [OF b] show ?thesis .
  next
    case False
    then show ?thesis by (intro applyBatch_adds [OF b]) simp
  qed
  have two: "inFriends us (senderUid req) me"
  proof (cases "me \<in> set (friendsOrEmpty d2)")
    case True
    with d2 have "inFriends (users db) (senderUid req) me" by (simp add: inFriends_def)
    with applyBatch_keeps [OF b] show ?thesis .
  next
    case False
    then show ?thesis by (intro applyBatch_adds [OF b]) simp
  qed
  from one two updateDoc_status_Some [OF rs] show ?thesis
    by (simp add: db' hasFriend_def)
qed

lemma accept_batched_all_or_nothing:
  assumes "acceptFriendRequest ok m db cu req = (db', out)"
    and "\<forall>t. out \<noteq> AcceptSuccess t"
  shows "users db' = users db"
  using assms
  by (auto simp: acceptFriendRequest_def Let_def nowFriends_def
      split: option.splits if_splits)

lemma accept_sequential_success:
  assumes "acceptFriendRequest_sequential ok m db (Some me) req = (db', AcceptSuccess t)"
  shows "hasFriend db' me (senderUid req) \<and> hasFriend db' (senderUid req) me \<and>
         friendRequests db' (requestId req) = Some ReqAccepted"
proof -
  from assms obtain rs us1 us2 where
    rs: "updateDoc_status (friendRequests db) (requestId req) ReqAccepted = Some rs"
    and u1: "updateDoc_friends (users db) me (senderUid req) = Some us1"
    and u2: "updateDoc_friends us1 (senderUid req) me = Some us2"
    and db': "db' = db\<lparr>friendRequests := rs, users := us2\<rparr>"
    by (auto simp: acceptFriendRequest_sequential_def Let_def failedToAccept_no_success
        split: option.splits if_splits)
  from updateDoc_friends_keeps [OF u2 updateDoc_friends_adds [OF u1]]
    updateDoc_friends_adds [OF u2] updateDoc_status_Some [OF rs]
  show ?thesis
    by (simp add: db' hasFriend_def)
qed

lemma accept_all_succeed:
  "acceptFriendRequest (\<lambda>_. True) [] twoProfiles (Some ''alice'') bobsRequest =
     (\<lparr>users = [''alice'' \<mapsto> \<lparr>friends = Some [''bob'']\<rparr>,
               ''bob'' \<mapsto> \<lparr>friends = Some [''alice'']\<rparr>],
       friendRequests = [''r1'' \<mapsto> ReqAccepted]\<rparr>,
      AcceptSuccess ''You are now friends with Bob!'')"
  by (simp add: acceptFriendRequest_def twoProfiles_def bobsRequest_def nowFriends_def
      updateDoc_status_def updateDoc_friends_def friendsOrEmpty_def arrayUnion_def fun_upd_twist)

lemma accept_sequential_sender_fails:
  "acceptFriendRequest_sequential (\<lambda>c. c \<noteq> UpdateSender) ''unavailable'' twoProfiles
     (Some ''alice'') bobsRequest =
     (\<lparr>users = [''alice'' \<mapsto> \<lparr>friends = Some [''bob'']\<rparr>, ''bob'' \<mapsto> \<lparr>friends = Some []\<rparr>],
       friendRequests = [''r1'' \<mapsto> ReqAccepted]\<rparr>,
      AcceptError ''Failed to accept friend request: unavailable'')"
  by (simp add: acceptFriendRequest_sequential_def twoProfiles_def bobsRequest_def
      failedToAccept_def updateDoc_status_def updateDoc_friends_def friendsOrEmpty_def
      arrayUnion_def fun_upd_twist)

text \<open>
  Claim C5, as stated, fails on the operation of src/src/pages/Friends.tsx, which issues
  two separate updates and has no outcome for a partial failure. The platform refuses
  the update of the sender's profile after the receiver's was written: bob is in alice's
  friends, alice is not in bob's, and what the operation reports is the very outcome it
  reports when the receiver's update is refused and no profile is written.
\<close>

theorem C5_partial_failure_not_told_apart:
  "snd (acceptFriendRequest_sequential (\<lambda>c. c \<noteq> UpdateSender) ''unavailable'' twoProfiles
          (Some ''alice'') bobsRequest) =
   snd (acceptFriendRequest_sequential (\<lambda>c. c \<noteq> UpdateReceiver) ''unavailable'' twoProfiles
          (Some ''alice'') bobsRequest) \<and>
   hasFriend (fst (acceptFriendRequest_sequential (\<lambda>c. c \<noteq> UpdateSender) ''unavailable''
          twoProfiles (Some ''alice'') bobsRequest)) ''alice'' ''bob'' \<and>
   \<not> hasFriend (fst (acceptFriendRequest_sequential (\<lambda>c. c \<noteq> UpdateSender) ''unavailable''
          twoProfiles (Some ''alice'') bobsRequest)) ''bob'' ''alice'' \<and>
   \<not> hasFriend (fst (acceptFriendRequest_sequential (\<lambda>c. c \<noteq> UpdateReceiver) ''unavailable''
          twoProfiles (Some ''alice'') bobsRequest)) ''alice'' ''bob''"
  by (simp add: acceptFriendRequest_sequential_def twoProfiles_def bobsRequest_def
      updateDoc_status_def updateDoc_friends_def hasFriend_def inFriends_def
      friendsOrEmpty_def arrayUnion_def)

text \<open>
  Claim C5, amended. In both versions of the operation, a success outcome means that the
  sender is in the receiver's friends, the receiver is in the sender's friends and the
  request is accepted. The version of src/unnamed/part_008 writes the profiles in one
  batch, so that any other outcome leaves every profile as it was. The version of
  src/src/pages/Friends.tsx writes them one after the other; when only the first write
  goes through it reports the general failure message, never success, and no outcome of
  its own marks the partial failure.
\<close>

theorem C5_success_means_both_sides:
  assumes "acceptFriendRequest ok m db (Some me) req = (dbB, outB)"
    and "acceptFriendRequest_sequential ok' m' db (Some me) req = (dbS, outS)"
  shows "(outB = AcceptSuccess t \<longrightarrow>
            hasFriend dbB me (senderUid req) \<and> hasFriend dbB (senderUid req) me \<and>
            friendRequests dbB (requestId req) = Some ReqAccepted) \<and>
         ((\<forall>t. outB \<noteq> AcceptSuccess t) \<longrightarrow> users dbB = users db) \<and>
         (outS = AcceptSuccess t \<longrightarrow>
            hasFriend dbS me (senderUid req) \<and> hasFriend dbS (senderUid req) me \<and>
            friendRequests dbS (requestId req) = Some ReqAccepted)"
  using accept_batched_success [of ok m db me req dbB t]
    accept_batched_all_or_nothing [of ok m db "Some me" req dbB outB]
    accept_sequential_success [of ok' m' db me req dbS t] assms
  by blast

theorem C5_success_means_both_sides_witness:
  "acceptFriendRequest (\<lambda>_. True) [] twoProfiles (Some ''alice'') bobsRequest =
     (\<lparr>users = [''alice'' \<mapsto> \<lparr>friends = Some [''bob'']\<rparr>,
               ''bob'' \<mapsto> \<lparr>friends = Some [''alice'']\<rparr>],
       friendRequests = [''r1'' \<mapsto> ReqAccepted]\<rparr>,
      AcceptSuccess ''You are now friends with Bob!'') \<and>
   acceptFriendRequest_sequential (\<lambda>c. c \<noteq> UpdateSender) ''unavailable'' twoProfiles
     (Some ''alice'') bobsRequest =
     (\<lparr>users = [''alice'' \<mapsto> \<lparr>friends = Some [''bob'']\<rparr>, ''bob'' \<mapsto> \<lparr>friends = Some []\<rparr>],
       friendRequests = [''r1'' \<mapsto> ReqAccepted]\<rparr>,
      AcceptError ''Failed to accept friend request: unavailable'') \<and>
   hasFriend \<lparr>users = [''alice'' \<mapsto> \<lparr>friends = Some [''bob'']\<rparr>,
                       ''bob'' \<mapsto> \<lparr>friends = Some [''alice'']\<rparr>],
              friendRequests = [''r1'' \<mapsto> ReqAccepted]\<rparr> ''alice'' ''bob'' \<and>
   hasFriend \<lparr>users = [''alice'' \<mapsto> \<lparr>friends = Some [''bob'']\<rparr>,
                       ''bob'' \<mapsto> \<lparr>friends = Some [''alice'']\<rparr>],
              friendRequests = [''r1'' \<mapsto> ReqAccepted]\<rparr> ''bob'' ''alice''"
proof -
  from C5_success_means_both_sides [OF accept_all_succeed accept_sequential_sender_fails,
      of "''You are now friends with Bob!''"]
  show ?thesis
    using accept_all_succeed accept_sequential_sender_fails
    by (simp add: bobsRequest_def)
qed

section \<open>Theorems: presence\<close>

lemma aliceLoggedOut_node:
  "aliceLoggedOut ''alice'' =
     \<lparr>isOnline = Some True, isShitting = Some False, lastActive = Some 1000, sessions = []\<rparr>"
  by (simp add: aliceLoggedOut_def aliceTab_def attach_def logout_def emptyNode_def)

lemma twoTabs_node:
  "twoTabs ''alice'' =
     \<lparr>isOnline = Some True, isShitting = Some False, lastActive = Some 1500,
      sessions = [(''s1'', True), (''s2'', True)]\<rparr>"
  by (simp add: twoTabs_def aliceTab_def attach_def emptyNode_def)

text \<open>
  Claim C6, as stated, fails: the record that is persisted holds a field \<open>isOnline\<close>,
  and one consumer trusts it. Alice attaches with one tab and logs out; her node keeps
  \<open>isOnline = true\<close> with no session left, and a second later the friend list of
  src/src/components/OnlineUsers.tsx still lists her as online for her friend bob, while
  the lists that go by the sessions do not.
\<close>

theorem C6_stored_flag_outlives_sessions:
  "isOnline (aliceLoggedOut ''alice'') = Some True \<and>
   \<not> hasActiveSessions (aliceLoggedOut ''alice'') \<and>
   listedOnline_stored ''bob'' [''alice''] 2000 ''alice'' (aliceLoggedOut ''alice'') \<and>
   \<not> listedOnline_sessions ''bob'' [''alice''] 2000 ''alice'' (aliceLoggedOut ''alice'')"
  by (simp add: aliceLoggedOut_node hasActiveSessions_def listedOnline_stored_def
      listedOnline_sessions_def)

text \<open>
  Claim C6, amended. The online flag that the listener of AuthContext and the friend
  lists of src/unnamed/part_001 compute is derived from the sessions alone: it is true
  exactly when the sessions map has an entry, whatever the stored field says. The
  persisted record does hold a field \<open>isOnline\<close>: each status write of AuthContext
  (registration, the effect on sign-in, the status update) stores it as true, together
  with the writer's session, so that at the time of the write the stored field and the
  derived value agree.
\<close>

theorem C6_online_derived_from_sessions:
  "hasActiveSessions (st\<lparr>isOnline := b\<rparr>) = hasActiveSessions st \<and>
   hasActiveSessions st = (0 < length (sessions st)) \<and>
   listedOnline_sessions me fs now u (st\<lparr>isOnline := b\<rparr>) =
     listedOnline_sessions me fs now u st \<and>
   isOnline (statusDb (attach sid t u c) u) = Some True \<and>
   isOnline (statusDb (updateUserStatus sid t (Some u) sh c) u) = Some True \<and>
   isOnline (statusDb (register_status sid t u c) u) = Some True \<and>
   hasActiveSessions (statusDb (attach sid t u c) u) \<and>
   hasActiveSessions (statusDb (updateUserStatus sid t (Some u) sh c) u) \<and>
   hasActiveSessions (statusDb (register_status sid t u c) u)"
  by (simp add: hasActiveSessions_def listedOnline_sessions_def attach_def updateUserStatus_def
      register_status_def Let_def)

text \<open>
  Claim C7. Logout removes the key of the calling session under the sessions of the
  caller's node and nothing else: every other session key keeps its value, the other
  fields of the node stay, and the nodes of other identities are untouched. The hook
  that the sign-in effect, the status update and the registration register with
  \<^verbatim>\<open>onDisconnect\<close> names that same session key, never the node, and when the
  connection drops it does what logout does. Hence, when another session of the
  identity is stored, the identity still counts as online after one session has closed.
\<close>

theorem C7_only_own_session_key_removed:
  assumes "k \<noteq> sid"
  shows "map_of (sessions (logout sid True (Some u) db u)) sid = None \<and>
     map_of (sessions (logout sid True (Some u) db u)) k = map_of (sessions (db u)) k \<and>
     isOnline (logout sid True (Some u) db u) = isOnline (db u) \<and>
     isShitting (logout sid True (Some u) db u) = isShitting (db u) \<and>
     lastActive (logout sid True (Some u) db u) = lastActive (db u) \<and>
     (\<forall>v. v \<noteq> u \<longrightarrow> logout sid True (Some u) db v = db v) \<and>
     (k \<in> fst ` set (sessions (db u)) \<longrightarrow> hasActiveSessions (logout sid True (Some u) db u)) \<and>
     hooks (attach sid t u \<lparr>statusDb = db0, hooks = []\<rparr>) = [SessionPath u sid] \<and>
     hooks (updateUserStatus sid t (Some u) sh \<lparr>statusDb = db0, hooks = []\<rparr>) =
       [SessionPath u sid] \<and>
     hooks (register_status sid t u \<lparr>statusDb = db0, hooks = []\<rparr>) = [SessionPath u sid] \<and>
     connectionDropped \<lparr>statusDb = db, hooks = [SessionPath u sid]\<rparr> =
       logout sid True (Some u) db"
proof -
  have act: "AList.delete sid (sessions (db u)) \<noteq> []" if "k \<in> fst ` set (sessions (db u))"
  proof -
    from that assms have "k \<in> fst ` set (AList.delete sid (sessions (db u)))"
      by (simp add: AList.delete_eq image_iff) force
    then show ?thesis by auto
  qed
  show ?thesis
    using assms act
    by (simp add: logout_def delete_conv' hasActiveSessions_def attach_def updateUserStatus_def
        register_status_def connectionDropped_def Let_def)
qed

theorem C7_only_own_session_key_removed_witness:
  "''s2'' \<noteq> ''s1'' \<and>
   sessions (twoTabs ''alice'') = [(''s1'', True), (''s2'', True)] \<and>
   map_of (sessions (logout ''s1'' True (Some ''alice'') twoTabs ''alice'')) ''s1'' = None \<and>
   map_of (sessions (logout ''s1'' True (Some ''alice'') twoTabs ''alice'')) ''s2'' = Some True \<and>
   hasActiveSessions (logout ''s1'' True (Some ''alice'') twoTabs ''alice'') \<and>
   connectionDropped \<lparr>statusDb = twoTabs, hooks = [SessionPath ''alice'' ''s1'']\<rparr> =
     logout ''s1'' True (Some ''alice'') twoTabs"
proof -
  have h: "''s2'' \<noteq> ''s1''" by simp
  from C7_only_own_session_key_removed [OF h, of "''alice''" twoTabs]
  show ?thesis
    using h by (simp add: twoTabs_node)
qed

section \<open>Theorems: the invite coordinator\<close>

lemma deleteDoc_gone: "docId \<notin> fst ` set (deleteDoc docId col)"
  by (auto simp: deleteDoc_def)

lemma deleteDoc_subset: "set (deleteDoc docId col) \<subseteq> set col"
  by (auto simp: deleteDoc_def)

lemma receiverPhase_subset: "set (fst (receiverPhase me g ctx col)) \<subseteq> set col"
  using deleteDoc_subset
  by (auto simp: receiverPhase_def split: list.splits firstInvite.splits)

lemma checkFirst_game:
  "gameId invite = Some gid \<Longrightarrow> gid \<noteq> [] \<Longrightarrow> g gid = Some doc \<Longrightarrow>
     checkFirst g invite = (if status doc \<noteq> Completed then Surface gid else Stale)"
  by (simp add: checkFirst_def)

text \<open>
  Claim C8, as stated, fails: a tick looks only at the first accepted invite of each
  query. Ann has sent two accepted invites and both games are over; her tick deletes the
  first invite, goes on to the invites she received, and leaves the second stale invite
  in the collection.
\<close>

theorem C8_second_stale_invite_survives:
  "map_of seededInvites ''i2'' =
     Some \<lparr>senderId = ''ann'', receiverId = ''cat'', inviteStatus = InvAccepted,
           gameId = Some ''g2''\<rparr> \<and>
   map_option status (seededGames ''g2'') = Some Completed \<and>
   ''i2'' \<in> fst ` set (fst (fetchGameState ''ann'' seededGames idleContext seededInvites))"
  by (simp add: seededInvites_def seededGames_def overGame_def idleContext_def
      fetchGameState_def receiverPhase_def pendingPhase_def acceptedAsSender_def
      acceptedAsReceiver_def pendingAsReceiver_def checkFirst_def deleteDoc_def falsy_def)

text \<open>
  Claim C8, amended. On a tick the scan examines the first accepted invite that the
  caller sent. When the game document it refers to has the status completed, the invite
  is deleted; when the status is not completed, the game is surfaced as the current game
  with the receiver as opponent, nothing is deleted and the scan stops. When the caller
  has sent no accepted invite, or the first one has no game id, or it was deleted as
  stale, the scan goes on to the first accepted invite that the caller received, in
  the collection as it then is (whatever else it holds), and treats it in the same way,
  with the sender as opponent; after deleting a stale received invite it goes on to the
  pending invites. Accepted invites further down a query result are not looked at in
  that tick.
\<close>

theorem C8_first_accepted_invite:
  assumes "gameId (snd d) = Some gid" and "gid \<noteq> []" and "g gid = Some doc"
  shows "(acceptedAsSender me col = d # rest \<longrightarrow>
           (status doc = Completed \<longrightarrow>
              fst d \<notin> fst ` set (fst (fetchGameState me g ctx col)) \<and>
              fetchGameState me g ctx col = receiverPhase me g ctx (deleteDoc (fst d) col)) \<and>
           (status doc \<noteq> Completed \<longrightarrow>
              fetchGameState me g ctx col =
                (col, ctx\<lparr>activeGameId := Some gid,
                          activeOpponentId := Some (receiverId (snd d))\<rparr>))) \<and>
         (acceptedAsReceiver me col2 = d # rest2 \<longrightarrow>
           (status doc = Completed \<longrightarrow>
              fst d \<notin> fst ` set (fst (receiverPhase me g ctx2 col2)) \<and>
              receiverPhase me g ctx2 col2 =
                (deleteDoc (fst d) col2, pendingPhase me ctx2 (deleteDoc (fst d) col2))) \<and>
           (status doc \<noteq> Completed \<longrightarrow>
              receiverPhase me g ctx2 col2 =
                (col2, ctx2\<lparr>activeGameId := Some gid,
                            activeOpponentId := Some (senderId (snd d))\<rparr>))) \<and>
         (acceptedAsSender me col3 = [] \<longrightarrow>
            fetchGameState me g3 ctx3 col3 = receiverPhase me g3 ctx3 col3) \<and>
         (acceptedAsSender me col3 = s # rest3 \<and>
          (gameId (snd s) = None \<or> gameId (snd s) = Some []) \<longrightarrow>
            fetchGameState me g3 ctx3 col3 = receiverPhase me g3 ctx3 col3)"
proof -
  have cf: "checkFirst g (snd d) = (if status doc \<noteq> Completed then Surface gid else Stale)"
    using assms by (rule checkFirst_game)
  have gone: "fst d \<notin> fst ` set (fst (receiverPhase me g ctx (deleteDoc (fst d) col)))"
    using receiverPhase_subset [of me g ctx "deleteDoc (fst d) col"] deleteDoc_gone [of "fst d" col]
    by auto
  have sent: "acceptedAsSender me col = d # rest \<longrightarrow>
           (status doc = Completed \<longrightarrow>
              fst d \<notin> fst ` set (fst (fetchGameState me g ctx col)) \<and>
              fetchGameState me g ctx col = receiverPhase me g ctx (deleteDoc (fst d) col)) \<and>
           (status doc \<noteq> Completed \<longrightarrow>
              fetchGameState me g ctx col =
                (col, ctx\<lparr>activeGameId := Some gid,
                          activeOpponentId := Some (receiverId (snd d))\<rparr>))"
    using gone by (simp add: fetchGameState_def cf)
  have received: "acceptedAsReceiver me col2 = d # rest2 \<longrightarrow>
           (status doc = Completed \<longrightarrow>
              fst d \<notin> fst ` set (fst (receiverPhase me g ctx2 col2)) \<and>
              receiverPhase me g ctx2 col2 =
                (deleteDoc (fst d) col2, pendingPhase me ctx2 (deleteDoc (fst d) col2))) \<and>
           (status doc \<noteq> Completed \<longrightarrow>
              receiverPhase me g ctx2 col2 =
                (col2, ctx2\<lparr>activeGameId := Some gid,
                            activeOpponentId := Some (senderId (snd d))\<rparr>))"
    using deleteDoc_gone [of "fst d" col2] by (simp add: receiverPhase_def cf)
  have none: "acceptedAsSender me col3 = [] \<longrightarrow>
            fetchGameState me g3 ctx3 col3 = receiverPhase me g3 ctx3 col3"
    by (simp add: fetchGameState_def)
  have noid: "acceptedAsSender me col3 = s # rest3 \<and>
          (gameId (snd s) = None \<or> gameId (snd s) = Some []) \<longrightarrow>
            fetchGameState me g3 ctx3 col3 = receiverPhase me g3 ctx3 col3"
    by (auto simp: fetchGameState_def checkFirst_def)
  from sent received none noid show ?thesis by blast
qed

lemma seeded_sent_by_ann:
  "acceptedAsSender ''ann'' mixedInvites =
     (''i1'', \<lparr>senderId = ''ann'', receiverId = ''bob'', inviteStatus = InvAccepted,
              gameId = Some ''g1''\<rparr>) #
     [(''i2'', \<lparr>senderId = ''ann'', receiverId = ''cat'', inviteStatus = InvAccepted,
              gameId = Some ''g2''\<rparr>)]"
  by (simp add: acceptedAsSender_def mixedInvites_def seededInvites_def)

lemma seeded_received_by_ann:
  "acceptedAsReceiver ''ann'' (deleteDoc ''i1'' mixedInvites) =
     (''i3'', \<lparr>senderId = ''dan'', receiverId = ''ann'', inviteStatus = InvAccepted,
              gameId = Some ''g2''\<rparr>) # []"
  by (simp add: acceptedAsReceiver_def deleteDoc_def mixedInvites_def seededInvites_def)

lemma live_first_sent:
  "acceptedAsSender ''ann'' seededInvites =
     (''i1'', \<lparr>senderId = ''ann'', receiverId = ''bob'', inviteStatus = InvAccepted,
              gameId = Some ''g1''\<rparr>) #
     [(''i2'', \<lparr>senderId = ''ann'', receiverId = ''cat'', inviteStatus = InvAccepted,
              gameId = Some ''g2''\<rparr>)]"
  by (simp add: acceptedAsSender_def seededInvites_def)

theorem C8_first_accepted_invite_witness:
  "fst (fetchGameState ''ann'' seededGames idleContext mixedInvites) =
     [(''i2'', \<lparr>senderId = ''ann'', receiverId = ''cat'', inviteStatus = InvAccepted,
               gameId = Some ''g2''\<rparr>)] \<and>
   fetchGameState ''ann'' liveGames idleContext seededInvites =
     (seededInvites,
      idleContext\<lparr>activeGameId := Some ''g1'', activeOpponentId := Some ''bob''\<rparr>)"
proof -
  have g1: "seededGames ''g1'' = Some overGame" and g2: "seededGames ''g2'' = Some overGame"
    and l1: "liveGames ''g1'' = Some startGame"
    by (simp_all add: seededGames_def liveGames_def)
  have so: "status overGame = Completed" by (simp add: overGame_def)
  have ss: "status startGame \<noteq> Completed" by (simp add: startGame_def newGameState_def)
  note a = C8_first_accepted_invite [of "(''i1'', \<lparr>senderId = ''ann'', receiverId = ''bob'',
     inviteStatus = InvAccepted, gameId = Some ''g1''\<rparr>)" "''g1''" seededGames overGame
     "''ann''" mixedInvites _ idleContext, simplified, OF g1, THEN conjunct1]
  note b = C8_first_accepted_invite [of "(''i3'', \<lparr>senderId = ''dan'', receiverId = ''ann'',
     inviteStatus = InvAccepted, gameId = Some ''g2''\<rparr>)" "''g2''" seededGames overGame
     "''ann''" _ _ _ "deleteDoc ''i1'' mixedInvites" "[]" idleContext, simplified, OF g2,
     THEN conjunct2, THEN conjunct1]
  note c = C8_first_accepted_invite [of "(''i1'', \<lparr>senderId = ''ann'', receiverId = ''bob'',
     inviteStatus = InvAccepted, gameId = Some ''g1''\<rparr>)" "''g1''" liveGames startGame
     "''ann''" seededInvites _ idleContext, simplified, OF l1, THEN conjunct1]
  have x: "fetchGameState ''ann'' seededGames idleContext mixedInvites =
           receiverPhase ''ann'' seededGames idleContext (deleteDoc ''i1'' mixedInvites)"
    using a seeded_sent_by_ann so by simp
  have y: "receiverPhase ''ann'' seededGames idleContext (deleteDoc ''i1'' mixedInvites) =
           (deleteDoc ''i3'' (deleteDoc ''i1'' mixedInvites),
            pendingPhase ''ann'' idleContext (deleteDoc ''i3'' (deleteDoc ''i1'' mixedInvites)))"
    using b seeded_received_by_ann so by simp
  have z: "fetchGameState ''ann'' liveGames idleContext seededInvites =
     (seededInvites,
      idleContext\<lparr>activeGameId := Some ''g1'', activeOpponentId := Some ''bob''\<rparr>)"
    using c live_first_sent ss by simp
  have w: "deleteDoc ''i3'' (deleteDoc ''i1'' mixedInvites) =
     [(''i2'', \<lparr>senderId = ''ann'', receiverId = ''cat'', inviteStatus = InvAccepted,
               gameId = Some ''g2''\<rparr>)]"
    by (simp add: deleteDoc_def mixedInvites_def seededInvites_def)
  from x y z w show ?thesis by simp
qed

section \<open>Theorems: friend recommendations\<close>

lemma keys_update:
  "map fst (AList.update k v m) = (if k \<in> fst ` set m then map fst m else map fst m @ [k])"
  by (induction m) auto

lemma getOrZero_Nil: "getOrZero [] c = 0"
  by (simp add: getOrZero_def)

lemma getOrZero_update:
  "getOrZero (AList.update k v m) c = (if c = k then v else getOrZero m c)"
  by (simp add: getOrZero_def update_conv')

lemma getOrZero_countFriendsFriends:
  "getOrZero (countFriendsFriends me fs ps m) c =
     (if c \<noteq> me \<and> c \<notin> set fs then getOrZero m c + count_list ps c else getOrZero m c)"
proof (induction ps arbitrary: m)
  case Nil
  show ?case by simp
next
  case (Cons p ps)
  show ?case
  proof (cases "p = me \<or> p \<in> set fs")
    case True
    then show ?thesis by (auto simp: Cons.IH)
  next
    case False
    then show ?thesis by (auto simp: Cons.IH getOrZero_update)
  qed
qed

lemma getOrZero_candidatesMap:
  "getOrZero (candidatesMap me fs fof m) c =
     (if c \<noteq> me \<and> c \<notin> set fs then getOrZero m c + occurrences fof c else getOrZero m c)"
  by (induction fof arbitrary: m)
     (simp_all add: occurrences_def getOrZero_countFriendsFriends)

lemma dom_countFriendsFriends:
  "fst ` set (countFriendsFriends me fs ps m) =
     fst ` set m \<union> {c \<in> set ps. c \<noteq> me \<and> c \<notin> set fs}"
proof (induction ps arbitrary: m)
  case Nil
  show ?case by simp
next
  case (Cons p ps)
  show ?case
  proof (cases "p = me \<or> p \<in> set fs")
    case True
    then show ?thesis by (auto simp: Cons.IH)
  next
    case False
    then show ?thesis by (auto simp: Cons.IH dom_update)
  qed
qed

lemma dom_candidatesMap:
  "fst ` set (candidatesMap me fs fof m) =
     fst ` set m \<union> {c. c \<noteq> me \<and> c \<notin> set fs \<and> (\<exists>e \<in> set fof. c \<in> set (snd e))}"
  by (induction fof arbitrary: m) (auto simp: dom_countFriendsFriends)

lemma set_firstSeen: "set (firstSeen xs) = set xs"
  by (induction xs) auto

lemma distinct_firstSeen: "distinct (firstSeen xs)"
  by (induction xs) (auto simp: set_firstSeen)

lemma firstSeen_append:
  "firstSeen (xs @ ys) = firstSeen xs @ filter (\<lambda>c. c \<notin> set xs) (firstSeen ys)"
  by (induction xs) (auto intro: filter_cong)

lemma keys_countFriendsFriends:
  "map fst (countFriendsFriends me fs ps m) =
     map fst m @ filter (\<lambda>c. c \<notin> fst ` set m)
                   (firstSeen (filter (\<lambda>c. c \<noteq> me \<and> c \<notin> set fs) ps))"
proof (induction ps arbitrary: m)
  case Nil
  show ?case by simp
next
  case (Cons p ps)
  show ?case
  proof (cases "p = me \<or> p \<in> set fs")
    case True
    then show ?thesis by (auto simp: Cons.IH)
  next
    case False
    have same: "filter (\<lambda>c. c \<noteq> p \<and> c \<notin> fst ` set m) xs =
                filter (\<lambda>c. c \<notin> fst ` set m) xs" if "p \<in> fst ` set m" for xs :: "string list"
      using that by (intro filter_cong) auto
    from False show ?thesis
      by (auto simp: Cons.IH keys_update dom_update same)
  qed
qed

lemma keys_candidatesMap:
  "map fst (candidatesMap me fs fof m) =
     map fst m @ filter (\<lambda>c. c \<notin> fst ` set m)
                   (firstSeen (filter (\<lambda>c. c \<noteq> me \<and> c \<notin> set fs) (concat (map snd fof))))"
proof (induction fof arbitrary: m)
  case Nil
  show ?case by simp
next
  case (Cons e fof)
  have "filter (\<lambda>c. c \<notin> fst ` set (countFriendsFriends me fs (snd e) m)) xs =
        filter (\<lambda>c. c \<notin> fst ` set m)
          (filter (\<lambda>c. c \<notin> set (filter (\<lambda>c. c \<noteq> me \<and> c \<notin> set fs) (snd e))) xs)"
    for xs :: "string list"
    by (auto simp: dom_countFriendsFriends intro: filter_cong)
  then show ?case
    by (simp add: Cons.IH keys_countFriendsFriends firstSeen_append)
qed

lemma keys_candidatesMap_empty:
  "map fst (candidatesMap me fs fof []) = firstMet me fs fof"
  by (simp add: keys_candidatesMap firstMet_def)

lemma count_list_distinct:
  "distinct xs \<Longrightarrow> count_list xs c = (if c \<in> set xs then 1 else 0)"
  by (induction xs) auto

lemma occurrences_distinct:
  "\<forall>e \<in> set fof. distinct (snd e) \<Longrightarrow> occurrences fof c = reachableThrough fof c"
  by (induction fof) (auto simp: occurrences_def reachableThrough_def count_list_distinct)

lemma candidatesMap_entry:
  assumes "e \<in> set (candidatesMap me fs fof [])"
  shows "snd e = occurrences fof (fst e) \<and> fst e \<noteq> me \<and> fst e \<notin> set fs"
proof -
  have d: "distinct (map fst (candidatesMap me fs fof []))"
    by (simp add: keys_candidatesMap_empty firstMet_def distinct_firstSeen)
  from assms have "(fst e, snd e) \<in> set (candidatesMap me fs fof [])" by simp
  with d have "map_of (candidatesMap me fs fof []) (fst e) = Some (snd e)" by simp
  then have g: "getOrZero (candidatesMap me fs fof []) (fst e) = snd e"
    by (simp add: getOrZero_def)
  from assms have "fst e \<in> fst ` set (candidatesMap me fs fof [])" by (rule imageI)
  then have ok: "fst e \<noteq> me \<and> fst e \<notin> set fs" by (simp add: dom_candidatesMap)
  from g [symmetric] ok show ?thesis
    by (simp add: getOrZero_candidatesMap getOrZero_Nil)
qed

lemma keys_filter_by_value:
  "\<forall>e \<in> set xs. snd e = h (fst e) \<Longrightarrow>
     map fst (filter (\<lambda>e. snd e = k) xs) = filter (\<lambda>c. h c = k) (map fst xs)"
  by (induction xs) auto

lemma zed_first:
  "calculateRecommendations ''me'' [''f1'', ''f2''] graphZedFirst =
     [\<lparr>rec_uid = ''amy'', mutualFriends = 2\<rparr>, \<lparr>rec_uid = ''zed'', mutualFriends = 1\<rparr>,
      \<lparr>rec_uid = ''bea'', mutualFriends = 1\<rparr>]"
  by (simp add: calculateRecommendations_def graphZedFirst_def getOrZero_def)

lemma bea_first:
  "calculateRecommendations ''me'' [''f1'', ''f2''] graphBeaFirst =
     [\<lparr>rec_uid = ''amy'', mutualFriends = 2\<rparr>, \<lparr>rec_uid = ''bea'', mutualFriends = 1\<rparr>,
      \<lparr>rec_uid = ''zed'', mutualFriends = 1\<rparr>]"
  by (simp add: calculateRecommendations_def graphBeaFirst_def getOrZero_def)

text \<open>
  Claim C9, as stated, fails: no secondary key breaks ties, and the ranking is not a
  function of the counts alone. The requester's friends f1 and f2 are both sampled; the
  two maps hold the same entries and give every candidate the same score, yet the
  candidates zed and bea, tied at 1, come out in the order in which the loops met them:
  zed before bea for one insertion order of the map, bea before zed for the other.
\<close>

theorem C9_ties_follow_insertion_order:
  "set graphZedFirst = set graphBeaFirst \<and>
   map rec_uid (calculateRecommendations ''me'' [''f1'', ''f2''] graphZedFirst) =
     [''amy'', ''zed'', ''bea''] \<and>
   map rec_uid (calculateRecommendations ''me'' [''f1'', ''f2''] graphBeaFirst) =
     [''amy'', ''bea'', ''zed''] \<and>
   map mutualFriends (calculateRecommendations ''me'' [''f1'', ''f2''] graphZedFirst) =
     [2, 1, 1] \<and>
   map mutualFriends (calculateRecommendations ''me'' [''f1'', ''f2''] graphBeaFirst) =
     [2, 1, 1]"
  by (simp add: zed_first bea_first) (auto simp: graphZedFirst_def graphBeaFirst_def)

lemma sorted_desc:
  "sorted_wrt (\<lambda>a b. mutualFriends b \<le> mutualFriends a)
     (sort_key (\<lambda>r. - int (mutualFriends r)) xs)"
proof -
  have "sorted (map (\<lambda>r. - int (mutualFriends r)) (sort_key (\<lambda>r. - int (mutualFriends r)) xs))"
    by (rule sorted_sort_key)
  then show ?thesis by (simp add: sorted_map)
qed

lemma ties_keep_order:
  "filter (\<lambda>r. mutualFriends r = k) (sort_key (\<lambda>r. - int (mutualFriends r)) xs) =
   filter (\<lambda>r. mutualFriends r = k) xs"
proof -
  have eq: "(\<lambda>r. mutualFriends r = k) = (\<lambda>r. - int (mutualFriends r) = - int k)"
    by auto
  show ?thesis
    unfolding eq by (rule sort_key_stable)
qed

text \<open>
  Claim C9, amended. When no friend's list repeats an id, the result lists each
  candidate once; the candidates are exactly the ids that stand in some sampled friend's
  list and are neither the requester nor one of the requester's friends; the score of a
  candidate is the number of sampled friends whose list holds it; the list is ordered by
  score, highest first; candidates with equal scores stay in the order in which the
  loops first met them (the order of the map's entries, then of each list), with no
  secondary key; and the ids taken for the reply are the first five of that list.
\<close>

theorem C9_ranking_by_mutual_friends:
  assumes "\<forall>e \<in> set fof. distinct (snd e)"
  shows "distinct (map rec_uid (calculateRecommendations me fs fof)) \<and>
     set (map rec_uid (calculateRecommendations me fs fof)) =
       {c. c \<noteq> me \<and> c \<notin> set fs \<and> (\<exists>e \<in> set fof. c \<in> set (snd e))} \<and>
     (\<forall>r \<in> set (calculateRecommendations me fs fof).
        mutualFriends r = reachableThrough fof (rec_uid r)) \<and>
     sorted_wrt (\<lambda>a b. mutualFriends b \<le> mutualFriends a)
       (calculateRecommendations me fs fof) \<and>
     map rec_uid (filter (\<lambda>r. mutualFriends r = k) (calculateRecommendations me fs fof)) =
       filter (\<lambda>c. reachableThrough fof c = k) (firstMet me fs fof) \<and>
     topRecommendationIds 5 (calculateRecommendations me fs fof) =
       take 5 (map rec_uid (calculateRecommendations me fs fof)) \<and>
     length (topRecommendationIds 5 (calculateRecommendations me fs fof)) \<le> 5"
proof -
  let ?cm = "candidatesMap me fs fof []"
  let ?mk = "\<lambda>e. \<lparr>rec_uid = fst e, mutualFriends = snd e\<rparr>"
  let ?f = "\<lambda>r. - int (mutualFriends r)"
  let ?R = "calculateRecommendations me fs fof"
  have R: "?R = sort_key ?f (map ?mk ?cm)"
    by (simp add: calculateRecommendations_def)
  have uid_mk: "map rec_uid (map ?mk ?cm) = firstMet me fs fof"
    by (simp add: o_def keys_candidatesMap_empty [symmetric])
  have entry: "\<forall>e \<in> set ?cm. snd e = reachableThrough fof (fst e)"
    using candidatesMap_entry [of _ me fs fof] occurrences_distinct [OF assms] by simp
  have ms: "mset (map rec_uid ?R) = mset (firstMet me fs fof)"
    unfolding R by (simp only: mset_map mset_sort uid_mk [symmetric])
  have 1: "distinct (map rec_uid ?R)"
    using mset_eq_imp_distinct_iff [OF ms] by (simp add: firstMet_def distinct_firstSeen)
  have "set (map rec_uid ?R) = set (firstMet me fs fof)"
    using ms by (rule mset_eq_setD)
  then have 2: "set (map rec_uid ?R) =
       {c. c \<noteq> me \<and> c \<notin> set fs \<and> (\<exists>e \<in> set fof. c \<in> set (snd e))}"
    by (auto simp: firstMet_def set_firstSeen)
  have 3: "\<forall>r \<in> set ?R. mutualFriends r = reachableThrough fof (rec_uid r)"
    using entry by (auto simp: R)
  have 4: "sorted_wrt (\<lambda>a b. mutualFriends b \<le> mutualFriends a) ?R"
    unfolding R by (rule sorted_desc)
  have "map rec_uid (filter (\<lambda>r. mutualFriends r = k) ?R) =
        map rec_uid (filter (\<lambda>r. mutualFriends r = k) (map ?mk ?cm))"
    unfolding R by (simp only: ties_keep_order)
  also have "\<dots> = map fst (filter (\<lambda>e. snd e = k) ?cm)"
    by (simp add: filter_map o_def)
  also have "\<dots> = filter (\<lambda>c. reachableThrough fof c = k) (map fst ?cm)"
    using entry by (rule keys_filter_by_value)
  finally have 5: "map rec_uid (filter (\<lambda>r. mutualFriends r = k) ?R) =
       filter (\<lambda>c. reachableThrough fof c = k) (firstMet me fs fof)"
    by (simp add: keys_candidatesMap_empty)
  have 6: "topRecommendationIds 5 ?R = take 5 (map rec_uid ?R) \<and>
           length (topRecommendationIds 5 ?R) \<le> 5"
    by (simp add: topRecommendationIds_def take_map)
  from 1 2 3 4 5 6 show ?thesis by blast
qed

theorem C9_ranking_by_mutual_friends_witness:
  "distinct [''zed'', ''amy'', ''me''] \<and> distinct [''bea'', ''amy'', ''f1''] \<and>
   firstMet ''me'' [''f1'', ''f2''] graphZedFirst = [''zed'', ''amy'', ''bea''] \<and>
   map rec_uid (filter (\<lambda>r. mutualFriends r = 1)
     (calculateRecommendations ''me'' [''f1'', ''f2''] graphZedFirst)) = [''zed'', ''bea''] \<and>
   topRecommendationIds 5 (calculateRecommendations ''me'' [''f1'', ''f2''] graphZedFirst) =
     [''amy'', ''zed'', ''bea'']"
proof -
  have h: "\<forall>e \<in> set graphZedFirst. distinct (snd e)"
    by (simp add: graphZedFirst_def)
  have d: "distinct [''zed'', ''amy'', ''me''] \<and> distinct [''bea'', ''amy'', ''f1'']"
    by simp
  have fm: "firstMet ''me'' [''f1'', ''f2''] graphZedFirst = [''zed'', ''amy'', ''bea'']"
    by (simp add: firstMet_def graphZedFirst_def)
  have r1: "filter (\<lambda>c. reachableThrough graphZedFirst c = 1) [''zed'', ''amy'', ''bea''] =
            [''zed'', ''bea'']"
    by (simp add: reachableThrough_def graphZedFirst_def)
  note t = C9_ranking_by_mutual_friends [OF h, of "''me''" "[''f1'', ''f2'']" 1]
  note ties = t [THEN conjunct2, THEN conjunct2, THEN conjunct2, THEN conjunct2, THEN conjunct1]
  note top = t [THEN conjunct2, THEN conjunct2, THEN conjunct2, THEN conjunct2, THEN conjunct2,
      THEN conjunct1]
  have a: "map rec_uid (filter (\<lambda>r. mutualFriends r = 1)
     (calculateRecommendations ''me'' [''f1'', ''f2''] graphZedFirst)) = [''zed'', ''bea'']"
    by (simp only: ties fm r1)
  have b: "topRecommendationIds 5
             (calculateRecommendations ''me'' [''f1'', ''f2''] graphZedFirst) =
           [''amy'', ''zed'', ''bea'']"
    unfolding top by (simp add: zed_first)
  from d fm a b show ?thesis by (intro conjI) (erule conjunct1, erule conjunct2, assumption+)
qed

section \<open>Theorems: the friends hash\<close>

lemma sort_same_elements: "mset xs = mset ys \<Longrightarrow> sort xs = sort (ys :: string list)"
  by (rule properties_for_sort) simp_all

lemma sort_bob_ann_cat: "sort [''bob'', ''ann'', ''cat''] = [''ann'', ''bob'', ''cat'']"
  by code_simp

lemma sort_cat_bob_ann: "sort [''cat'', ''bob'', ''ann''] = [''ann'', ''bob'', ''cat'']"
  by code_simp

text \<open>
  Claim C10. Two friend lists that are permutations of each other have the same hash,
  since the list is sorted before it is joined. Hence both cache readers answer the
  same for either list, whatever is stored, and recommendations cached under one
  ordering of the friends are returned, within the maximal age, when the list arrives
  in another ordering.
\<close>

theorem C10_hash_ignores_order:
  assumes "mset xs = mset ys"
  shows "generateFriendsHash xs = generateFriendsHash ys \<and>
         getCachedRecommendations item now xs maxAge =
           getCachedRecommendations item now ys maxAge \<and>
         getCachedTimeline item' now' xs maxAge' = getCachedTimeline item' now' ys maxAge' \<and>
         (int t1 - int t0 \<le> int age \<longrightarrow>
            getCachedRecommendations (cacheRecommendations t0 recs xs sampled) t1 ys age =
              Some recs)"
proof -
  from assms have "sort xs = sort ys" by (rule sort_same_elements)
  then have h: "generateFriendsHash xs = generateFriendsHash ys"
    by (simp only: generateFriendsHash_def)
  have 1: "getCachedRecommendations item now xs maxAge =
           getCachedRecommendations item now ys maxAge"
    by (simp only: getCachedRecommendations_def h)
  have 2: "getCachedTimeline item' now' xs maxAge' = getCachedTimeline item' now' ys maxAge'"
    by (simp only: getCachedTimeline_def h)
  have 3: "int t1 - int t0 \<le> int age \<longrightarrow>
            getCachedRecommendations (cacheRecommendations t0 recs xs sampled) t1 ys age =
              Some recs"
    by (simp add: getCachedRecommendations_def cacheRecommendations_def h)
  from h 1 2 3 show ?thesis by blast
qed

theorem C10_hash_ignores_order_witness:
  "mset [''bob'', ''ann'', ''cat''] = mset [''cat'', ''bob'', ''ann''] \<and>
   generateFriendsHash [''bob'', ''ann'', ''cat''] = ''ann|bob|cat'' \<and>
   generateFriendsHash [''cat'', ''bob'', ''ann''] = ''ann|bob|cat'' \<and>
   getCachedRecommendations
     (cacheRecommendations 100 [''dan''] [''bob'', ''ann'', ''cat''] [''bob''])
     200 [''cat'', ''bob'', ''ann''] 86400000 = Some [''dan'']"
proof -
  have h: "mset [''bob'', ''ann'', ''cat''] = mset [''cat'', ''bob'', ''ann'']"
    by (simp add: add_mset_commute)
  have e: "generateFriendsHash [''bob'', ''ann'', ''cat''] = ''ann|bob|cat''"
    by (simp add: generateFriendsHash_def sort_bob_ann_cat)
  have a: "int 200 - int 100 \<le> int 86400000" by simp
  note t = C10_hash_ignores_order [OF h, of _ _ _ _ _ _ 200 100 86400000 "[''dan'']" "[''bob'']"]
  note same = t [THEN conjunct1]
  note hit = t [THEN conjunct2, THEN conjunct2, THEN conjunct2, THEN mp, OF a]
  from e same have e': "generateFriendsHash [''cat'', ''bob'', ''ann''] = ''ann|bob|cat''"
    by (simp only:)
  from h e e' hit show ?thesis by (intro conjI)
qed

end
